theory Spec2Isabelle
  imports Main "HOL-Library.Sublist" "HOL-Library.Word"
begin

section \<open>JavaScript values\<close>

subsection \<open>Strings\<close>

text \<open>
  A JavaScript string is a sequence of UTF-16 code units. \<open>code_unit c\<close> is the code unit of
  a character below \<open>0x100\<close>, and \<open>ustr\<close> turns the text of a string literal of the
  source into its code units.
\<close>

type_synonym jsstring = "16 word list"

definition code_unit :: "char \<Rightarrow> 16 word" where
  "code_unit c = word_of_nat (of_char c)"

definition ustr :: "string \<Rightarrow> jsstring" where
  "ustr s = map code_unit s"

subsection \<open>Numbers\<close>

text \<open>
  The numbers of the model are the safe integers, the integer values of magnitude below
  \<open>2^53\<close>. Each of them is a double, and JavaScript prints it as its decimal digits.
  Fractions, larger numbers, \<open>NaN\<close> and the infinities are not values of the model.
\<close>

typedef safe_int = "{n :: int. \<bar>n\<bar> < 2 ^ 53}"
  by (rule exI [of _ 0]) simp

subsection \<open>Values\<close>

text \<open>
  The values that reach the library: the arguments of the endpoint methods, the
  \<open>options\<close> object and the query objects built from them.

  \<^item> \<open>JArr xs\<close> is an array without holes.
  \<^item> \<open>JObj kvs\<close> is a plain object; \<open>kvs\<close> lists its own enumerable properties in
    the order \<open>Object.keys\<close> reports them, each key once and none of them \<open>__proto__\<close>.
\<close>

datatype jsval =
    JUndefined
  | JNull
  | JBool bool
  | JNum safe_int
  | JStr jsstring
  | JArr "jsval list"
  | JObj "(jsstring \<times> jsval) list"

text \<open>Truthiness, as tested by \<open>if (x)\<close>, \<open>!x\<close> and \<open>x ? a : b\<close>.\<close>

fun truthy :: "jsval \<Rightarrow> bool" where
  "truthy JUndefined = False"
| "truthy JNull = False"
| "truthy (JBool b) = b"
| "truthy (JNum n) = (Rep_safe_int n \<noteq> 0)"
| "truthy (JStr s) = (s \<noteq> [])"
| "truthy (JArr xs) = True"
| "truthy (JObj kvs) = True"

text \<open>\<open>typeof x === 'object' && x !== null\<close>\<close>

fun is_object :: "jsval \<Rightarrow> bool" where
  "is_object (JArr xs) = True"
| "is_object (JObj kvs) = True"
| "is_object v = False"

subsection \<open>Numbers and values as strings\<close>

definition digit_char :: "nat \<Rightarrow> char" where
  "digit_char d = char_of (48 + d)"

fun string_of_nat :: "nat \<Rightarrow> string" where
  "string_of_nat n =
     (if n < 10 then [digit_char n]
      else string_of_nat (n div 10) @ [digit_char (n mod 10)])"

declare string_of_nat.simps [simp del]

text \<open>The decimal digits of an integer, with a minus sign when it is negative.\<close>

definition decimal :: "int \<Rightarrow> string" where
  "decimal i =
     (if i < 0 then CHR ''-'' # string_of_nat (nat (- i)) else string_of_nat (nat i))"

text \<open>\<open>Number::toString\<close> on a safe integer.\<close>

definition number_to_string :: "safe_int \<Rightarrow> jsstring" where
  "number_to_string n = ustr (decimal (Rep_safe_int n))"

fun join_with :: "jsstring \<Rightarrow> jsstring list \<Rightarrow> jsstring" where
  "join_with sep [] = []"
| "join_with sep [x] = x"
| "join_with sep (x # y # ys) = x @ sep @ join_with sep (y # ys)"

text \<open>
  \<open>ToString\<close>, as applied by a template literal \<open>`shows/${showid}`\<close> and by a computed
  property key \<open>query[type]\<close>. An array prints its elements joined by commas, with
  \<open>undefined\<close> and \<open>null\<close> elements printed as the empty string.
\<close>

fun js_to_string :: "jsval \<Rightarrow> jsstring" where
  "js_to_string JUndefined = ustr ''undefined''"
| "js_to_string JNull = ustr ''null''"
| "js_to_string (JBool b) = (if b then ustr ''true'' else ustr ''false'')"
| "js_to_string (JNum n) = number_to_string n"
| "js_to_string (JStr s) = s"
| "js_to_string (JArr xs) =
     join_with (ustr '','')
       (map (\<lambda>x. case x of JUndefined \<Rightarrow> [] | JNull \<Rightarrow> [] | _ \<Rightarrow> js_to_string x) xs)"
| "js_to_string (JObj kvs) = ustr ''[object Object]''"

subsection \<open>Objects\<close>

text \<open>Reading a property: \<open>obj.k\<close> is \<open>undefined\<close> when the object has no such key.\<close>

definition obj_get :: "(jsstring \<times> jsval) list \<Rightarrow> jsstring \<Rightarrow> jsval" where
  "obj_get kvs k = (case map_of kvs k of None \<Rightarrow> JUndefined | Some v \<Rightarrow> v)"

text \<open>
  Writing a property: \<open>obj[k] = v\<close> keeps the position of an existing key and appends a
  new one.
\<close>

fun obj_set :: "jsstring \<Rightarrow> jsval \<Rightarrow> (jsstring \<times> jsval) list \<Rightarrow> (jsstring \<times> jsval) list" where
  "obj_set k v [] = [(k, v)]"
| "obj_set k v ((k', v') # kvs) =
     (if k' = k then (k, v) # kvs else (k', v') # obj_set k v kvs)"

text \<open>\<open>delete obj[k]\<close>\<close>

definition obj_delete :: "jsstring \<Rightarrow> (jsstring \<times> jsval) list \<Rightarrow> (jsstring \<times> jsval) list" where
  "obj_delete k kvs = filter (\<lambda>p. fst p \<noteq> k) kvs"

fun indexed :: "nat \<Rightarrow> jsval list \<Rightarrow> (jsstring \<times> jsval) list" where
  "indexed i [] = []"
| "indexed i (x # xs) = (ustr (string_of_nat i), x) # indexed (Suc i) xs"

text \<open>
  The own enumerable properties of a value, as \<open>Object.keys\<close> and \<open>Object.assign\<close> see
  them: the properties of an object, the elements of an array and the code units of a
  string under their indices, nothing for the other primitives.
\<close>

fun own_props :: "jsval \<Rightarrow> (jsstring \<times> jsval) list" where
  "own_props (JObj kvs) = kvs"
| "own_props (JArr xs) = indexed 0 xs"
| "own_props (JStr s) = indexed 0 (map (\<lambda>c. JStr [c]) s)"
| "own_props v = []"

text \<open>
  \<open>Object.assign(target, ...sources)\<close>: every own enumerable property of every source is
  written to the target, sources from left to right; \<open>undefined\<close> and \<open>null\<close> sources
  have no properties and are skipped.
\<close>

definition Object_assign ::
  "(jsstring \<times> jsval) list \<Rightarrow> jsval list \<Rightarrow> (jsstring \<times> jsval) list" where
  "Object_assign target sources =
     fold (\<lambda>src t. fold (\<lambda>(k, v). obj_set k v) (own_props src) t) sources target"

section \<open>Errors and outcomes\<close>

text \<open>
  The one exception that the code in reach of the library throws is the \<open>URIError\<close>
  (\<open>ERR_INVALID_URI\<close>) of \<open>querystring.escape\<close>. A computation that may throw returns
  \<open>Inl\<close> of the error or \<open>Inr\<close> of its value, and \<open>and_then\<close> passes an error on.
\<close>

datatype js_error = URIError

definition and_then :: "js_error + 'a \<Rightarrow> ('a \<Rightarrow> js_error + 'b) \<Rightarrow> js_error + 'b" where
  "and_then r f = (case r of Inl e \<Rightarrow> Inl e | Inr x \<Rightarrow> f x)"

text \<open>
  A call of an endpoint method throws before it returns, or returns a promise that is
  rejected with the error of the transport or resolved with a value.
\<close>

datatype ('e, 'j) outcome = Throws js_error | Rejects 'e | Resolves 'j

section \<open>Node's \<open>querystring.stringify\<close> and \<open>url.format\<close>\<close>

text \<open>
  \<open>sendRequest\<close> builds its URL with \<open>url.format({pathname, query})\<close> of the Node.js
  standard library, which serialises \<open>query\<close> with \<open>querystring.stringify\<close>. The
  definitions below follow \<open>lib/querystring.js\<close>, \<open>lib/internal/querystring.js\<close> and
  \<open>lib/url.js\<close>.
\<close>

definition hex_digit :: "nat \<Rightarrow> char" where
  "hex_digit d = (if d < 10 then char_of (48 + d) else char_of (55 + d))"

text \<open>\<open>hexTable[c]\<close>: a percent sign and the two upper-case hexadecimal digits of \<open>c\<close>.\<close>

definition hexTable :: "nat \<Rightarrow> jsstring" where
  "hexTable c = ustr [CHR ''%'', hex_digit (c div 16), hex_digit (c mod 16)]"

text \<open>
  \<open>noEscape[c]\<close>: the characters that a query string keeps as they are, which are the
  digits, the letters and \<open>! ' ( ) * - . _ ~\<close>.
\<close>

definition noEscape :: "nat \<Rightarrow> bool" where
  "noEscape c =
     ((48 \<le> c \<and> c \<le> 57) \<or> (65 \<le> c \<and> c \<le> 90) \<or> (97 \<le> c \<and> c \<le> 122)
      \<or> c = 33 \<or> c = 39 \<or> c = 40 \<or> c = 41 \<or> c = 42 \<or> c = 45 \<or> c = 46 \<or> c = 95 \<or> c = 126)"

text \<open>
  \<open>querystring.escape\<close> (\<open>encodeStr\<close>) writes the UTF-8 bytes of the string, each as its
  \<open>hexTable\<close> entry, and keeps the ASCII code units of \<open>noEscape\<close>. With \<open>c\<close> the value of
  a code unit, the source's \<open>c >> 6\<close> is \<open>c div 64\<close>, \<open>c & 0x3F\<close> is \<open>c mod 64\<close>, and
  \<open>0xC0 | x\<close> is \<open>192 + x\<close> for the \<open>x\<close> it is applied to.

  \<^item> \<open>c < 0x80\<close>: the unit itself or one byte;
  \<^item> \<open>c < 0x800\<close>: two bytes;
  \<^item> \<open>c < 0xD800\<close> or \<open>c >= 0xE000\<close>: three bytes;
  \<^item> otherwise \<open>c\<close> is a surrogate: when it is the last unit of the string the function
    throws, and else it is combined with the low ten bits of the next unit, whatever that
    unit is, into a code point of four bytes.
\<close>

definition utf8_2 :: "nat \<Rightarrow> jsstring" where
  "utf8_2 c = hexTable (192 + c div 64) @ hexTable (128 + c mod 64)"

definition utf8_3 :: "nat \<Rightarrow> jsstring" where
  "utf8_3 c =
     hexTable (224 + c div 4096) @ hexTable (128 + (c div 64) mod 64) @ hexTable (128 + c mod 64)"

definition utf8_4 :: "nat \<Rightarrow> jsstring" where
  "utf8_4 c =
     hexTable (240 + c div 262144) @ hexTable (128 + (c div 4096) mod 64)
       @ hexTable (128 + (c div 64) mod 64) @ hexTable (128 + c mod 64)"

fun qsEscape :: "jsstring \<Rightarrow> js_error + jsstring" where
  "qsEscape [] = Inr []"
| "qsEscape (u # s) =
     (let c = unat u in
      if c < 128 then
        and_then (qsEscape s) (\<lambda>out. Inr ((if noEscape c then [u] else hexTable c) @ out))
      else if c < 2048 then
        and_then (qsEscape s) (\<lambda>out. Inr (utf8_2 c @ out))
      else if c < 55296 \<or> 57344 \<le> c then
        and_then (qsEscape s) (\<lambda>out. Inr (utf8_3 c @ out))
      else
        (case s of
           [] \<Rightarrow> Inl URIError
         | u2 # s' \<Rightarrow>
             (let c2 = unat u2 mod 1024;
                  cp = 65536 + ((c mod 1024) * 1024 + c2) in
              and_then (qsEscape s') (\<lambda>out. Inr (utf8_4 cp @ out)))))"

text \<open>
  \<open>encodeStringified\<close>: a string is escaped; a number is printed, and escaped as well when
  its magnitude is \<open>1e21\<close> or more; a boolean is printed; every other value (\<open>undefined\<close>,
  \<open>null\<close>, a nested array, an object) becomes the empty string.
\<close>

fun encodeStringified :: "jsval \<Rightarrow> js_error + jsstring" where
  "encodeStringified (JStr s) = (if s \<noteq> [] then qsEscape s else Inr [])"
| "encodeStringified (JNum n) =
     (if \<bar>Rep_safe_int n\<bar> < 10 ^ 21 then Inr (number_to_string n)
      else qsEscape (number_to_string n))"
| "encodeStringified (JBool b) = Inr (if b then ustr ''true'' else ustr ''false'')"
| "encodeStringified v = Inr []"

text \<open>
  The inner loop of \<open>stringify\<close> over a non-empty array value: one \<open>key=value\<close> entry for
  each element, separated by \<open>&\<close>.
\<close>

fun stringify_array :: "jsstring \<Rightarrow> jsval list \<Rightarrow> nat \<Rightarrow> jsstring \<Rightarrow> js_error + jsstring" where
  "stringify_array ks [] j fields = Inr fields"
| "stringify_array ks (x # xs) j fields =
     and_then (encodeStringified x) (\<lambda>ev.
       stringify_array ks xs (Suc j)
         ((if j \<noteq> 0 then fields @ ustr ''&'' else fields) @ ks @ ev))"

text \<open>
  The outer loop of \<open>stringify\<close> over the keys of the object. The key is escaped first;
  then an empty array contributes nothing, and any other value contributes its entries
  after a separator.
\<close>

fun stringify_fields :: "(jsstring \<times> jsval) list \<Rightarrow> jsstring \<Rightarrow> js_error + jsstring" where
  "stringify_fields [] fields = Inr fields"
| "stringify_fields ((k, v) # kvs) fields =
     and_then (encodeStringified (JStr k)) (\<lambda>ek.
       (let ks = ek @ ustr ''='' in
        case v of
          JArr xs \<Rightarrow>
            if xs = [] then stringify_fields kvs fields
            else and_then
                   (stringify_array ks xs 0
                      (if fields \<noteq> [] then fields @ ustr ''&'' else fields))
                   (\<lambda>fields'. stringify_fields kvs fields')
        | _ \<Rightarrow>
            and_then (encodeStringified v) (\<lambda>ev.
              stringify_fields kvs
                ((if fields \<noteq> [] then fields @ ustr ''&'' else fields) @ ks @ ev))))"

definition stringify :: "jsval \<Rightarrow> js_error + jsstring" where
  "stringify obj = (if is_object obj then stringify_fields (own_props obj) [] else Inr [])"

text \<open>The pathname loop of \<open>url.format\<close>: \<open>#\<close> and \<open>?\<close> are escaped.\<close>

fun escape_pathname :: "jsstring \<Rightarrow> jsstring" where
  "escape_pathname [] = []"
| "escape_pathname (c # cs) =
     (if c = code_unit CHR ''#'' then ustr ''%23'' @ escape_pathname cs
      else if c = code_unit CHR ''?'' then ustr ''%3F'' @ escape_pathname cs
      else c # escape_pathname cs)"

text \<open>\<open>search.replace(/#/g, '%23')\<close>\<close>

fun escape_hash :: "jsstring \<Rightarrow> jsstring" where
  "escape_hash [] = []"
| "escape_hash (c # cs) =
     (if c = code_unit CHR ''#'' then ustr ''%23'' @ escape_hash cs else c # escape_hash cs)"

text \<open>
  \<open>url.format(urlObject)\<close> for a \<open>urlObject\<close> that has a string \<open>pathname\<close> and a \<open>query\<close> and
  nothing else: protocol, host and hash are empty, and the result is the escaped
  pathname followed by the search string. The query is serialised first, so that its
  exception leaves the function before anything else is done.
\<close>

definition url_format :: "jsstring \<Rightarrow> jsval \<Rightarrow> js_error + jsstring" where
  "url_format pathname query =
     and_then (if is_object query then stringify query else Inr []) (\<lambda>qs.
       (let search = (if qs \<noteq> [] then ustr ''?'' @ qs else []);
            search = escape_hash search;
            search = (if search \<noteq> [] \<and> hd search \<noteq> code_unit CHR ''?'' then ustr ''?'' @ search
                      else search)
        in Inr (escape_pathname pathname @ search)))"

section \<open>The transport\<close>

text \<open>
  \<open>axios(requestOpts)\<close> is the only effect of the library. A request is the object passed
  to it; the network is modelled by the list of the requests issued so far, and the
  transport answers a request, given that history, with an error or with a response
  whose \<open>data\<close> field holds the parsed body.
\<close>

record request =
  method' :: jsstring
  url :: jsstring
  headers :: jsval

record 'j response =
  data :: 'j
  status :: nat

text \<open>
  What the module imports: the \<open>version\<close> field of \<open>package.json\<close> and the \<open>axios\<close>
  function.
\<close>

record ('e, 'j) env =
  VERSION :: jsstring
  axios :: "request list \<Rightarrow> request \<Rightarrow> 'e + 'j response"

definition axios_call ::
  "('e, 'j) env \<Rightarrow> request \<Rightarrow> request list \<Rightarrow> ('e + 'j response) \<times> request list" where
  "axios_call env req net = (axios env net req, net @ [req])"

section \<open>The library\<close>

definition BASE_URL :: jsstring where
  "BASE_URL = ustr ''api.tvmaze.com/''"

definition DEFAULT_OPTIONS :: "jsstring \<Rightarrow> jsval" where
  "DEFAULT_OPTIONS version =
     JObj [(ustr ''https'', JBool False),
           (ustr ''header'',
            JObj [(ustr ''User-Agent'', JStr (ustr ''Mozilla/5.0 (Node.js) Tvmaze/'' @ version))])]"

subsection \<open>\<open>sendRequest\<close>\<close>

text \<open>\<open>const opts = Object.assign({}, DEFAULT_OPTIONS, options)\<close>\<close>

definition merge_options :: "jsstring \<Rightarrow> jsval \<Rightarrow> (jsstring \<times> jsval) list" where
  "merge_options version options = Object_assign [] [DEFAULT_OPTIONS version, options]"

text \<open>
  \<open>const base_url = (opts.https) ? ("https://" + BASE_URL) : ("http://" + BASE_URL)\<close>
\<close>

definition base_url :: "jsstring \<Rightarrow> jsval \<Rightarrow> jsstring" where
  "base_url version options =
     (if truthy (obj_get (merge_options version options) (ustr ''https''))
      then ustr ''https://'' @ BASE_URL
      else ustr ''http://'' @ BASE_URL)"

definition requestUrl :: "jsstring \<Rightarrow> jsstring \<Rightarrow> jsval \<Rightarrow> js_error + jsstring" where
  "requestUrl version path options =
     and_then (url_format path (obj_get (merge_options version options) (ustr ''query'')))
       (\<lambda>formatted. Inr (base_url version options @ formatted))"

definition requestOpts :: "jsstring \<Rightarrow> jsstring \<Rightarrow> jsval \<Rightarrow> js_error + request" where
  "requestOpts version path options =
     and_then (requestUrl version path options) (\<lambda>u.
       Inr \<lparr>method' = ustr ''GET'',
            url = u,
            headers = obj_get (merge_options version options) (ustr ''header'')\<rparr>)"

text \<open>
  An exception of \<open>url.format\<close> leaves \<open>sendRequest\<close> before \<open>axios\<close> is called. Otherwise
  the promise returned resolves with \<open>response.data\<close> or rejects with the error that
  \<open>axios\<close> rejected with. The outcome is paired with the network after the call.
\<close>

definition sendRequest ::
  "('e, 'j) env \<Rightarrow> jsstring \<Rightarrow> jsval \<Rightarrow> request list \<Rightarrow> ('e, 'j) outcome \<times> request list" where
  "sendRequest env path options net =
     (case requestOpts (VERSION env) path options of
        Inl thrown \<Rightarrow> (Throws thrown, net)
      | Inr req \<Rightarrow>
          (case axios_call env req net of
             (Inr response, net') \<Rightarrow> (Resolves (data response), net')
           | (Inl error, net') \<Rightarrow> (Rejects error, net')))"

subsection \<open>Endpoint methods\<close>

definition search ::
  "('e, 'j) env \<Rightarrow> jsval \<Rightarrow> jsval \<Rightarrow> request list \<Rightarrow> ('e, 'j) outcome \<times> request list" where
  "search env str options =
     (let query = [(ustr ''q'', str)] in
      sendRequest env (ustr ''search/shows'')
        (JObj (Object_assign [] [options, JObj [(ustr ''query'', JObj query)]])))"

definition singleSearch ::
  "('e, 'j) env \<Rightarrow> jsval \<Rightarrow> jsval \<Rightarrow> jsval \<Rightarrow> request list \<Rightarrow> ('e, 'j) outcome \<times> request list" where
  "singleSearch env str embeds options =
     (let query = [(ustr ''q'', str), (ustr ''embed[]'', embeds)];
          query = (if \<not> truthy embeds then obj_delete (ustr ''embed[]'') query else query) in
      sendRequest env (ustr ''singlesearch/shows'')
        (JObj (Object_assign [] [options, JObj [(ustr ''query'', JObj query)]])))"

definition searchPeople ::
  "('e, 'j) env \<Rightarrow> jsval \<Rightarrow> jsval \<Rightarrow> request list \<Rightarrow> ('e, 'j) outcome \<times> request list" where
  "searchPeople env str options =
     (let query = [(ustr ''q'', str)] in
      sendRequest env (ustr ''search/people'')
        (JObj (Object_assign [] [options, JObj [(ustr ''query'', JObj query)]])))"

text \<open>
  In \<open>lookup\<close> the key of \<open>query[type] = id\<close> is computed. For the key \<open>__proto__\<close> the
  assignment reaches the setter of \<open>Object.prototype\<close>, which changes the prototype of \<open>query\<close>
  or does nothing, and \<open>query\<close> gets no own property.
\<close>

definition lookup ::
  "('e, 'j) env \<Rightarrow> jsval \<Rightarrow> jsval \<Rightarrow> jsval \<Rightarrow> request list \<Rightarrow> ('e, 'j) outcome \<times> request list" where
  "lookup env ltype ident options =
     (let query = [];
          query = (if js_to_string ltype = ustr ''__proto__'' then query
                   else obj_set (js_to_string ltype) ident query) in
      sendRequest env (ustr ''lookup/shows'')
        (JObj (Object_assign [] [options, JObj [(ustr ''query'', JObj query)]])))"

definition lookupThetvdb ::
  "('e, 'j) env \<Rightarrow> jsval \<Rightarrow> jsval \<Rightarrow> request list \<Rightarrow> ('e, 'j) outcome \<times> request list" where
  "lookupThetvdb env ident options = lookup env (JStr (ustr ''thetvdb'')) ident options"

definition lookupImdb ::
  "('e, 'j) env \<Rightarrow> jsval \<Rightarrow> jsval \<Rightarrow> request list \<Rightarrow> ('e, 'j) outcome \<times> request list" where
  "lookupImdb env ident options = lookup env (JStr (ustr ''imdb'')) ident options"

definition lookupTvrage ::
  "('e, 'j) env \<Rightarrow> jsval \<Rightarrow> jsval \<Rightarrow> request list \<Rightarrow> ('e, 'j) outcome \<times> request list" where
  "lookupTvrage env ident options = lookup env (JStr (ustr ''tvrage'')) ident options"

definition schedule ::
  "('e, 'j) env \<Rightarrow> jsval \<Rightarrow> jsval \<Rightarrow> jsval \<Rightarrow> request list \<Rightarrow> ('e, 'j) outcome \<times> request list" where
  "schedule env countryCode date options =
     (let query = [(ustr ''countrycode'', countryCode), (ustr ''date'', date)] in
      sendRequest env (ustr ''schedule'')
        (JObj (Object_assign [] [options, JObj [(ustr ''query'', JObj query)]])))"

definition fullSchedule ::
  "('e, 'j) env \<Rightarrow> jsval \<Rightarrow> request list \<Rightarrow> ('e, 'j) outcome \<times> request list" where
  "fullSchedule env options = sendRequest env (ustr ''schedule/full'') options"

definition show_m ::
  "('e, 'j) env \<Rightarrow> jsval \<Rightarrow> jsval \<Rightarrow> jsval \<Rightarrow> request list \<Rightarrow> ('e, 'j) outcome \<times> request list" where
  "show_m env showid embeds options =
     (let query = [(ustr ''embed[]'', embeds)] in
      sendRequest env (ustr ''shows/'' @ js_to_string showid)
        (JObj (Object_assign []
           [options, JObj [(ustr ''query'', if truthy embeds then JObj query else JNull)]])))"

definition episodes ::
  "('e, 'j) env \<Rightarrow> jsval \<Rightarrow> jsval \<Rightarrow> jsval \<Rightarrow> request list \<Rightarrow> ('e, 'j) outcome \<times> request list" where
  "episodes env showid specials options =
     (let query = [(ustr ''specials'', JNum (Abs_safe_int 1))] in
      sendRequest env (ustr ''shows/'' @ js_to_string showid @ ustr ''/episodes'')
        (JObj (Object_assign []
           [options, JObj [(ustr ''query'', if truthy specials then JObj query else JNull)]])))"

definition episode ::
  "('e, 'j) env \<Rightarrow> jsval \<Rightarrow> jsval \<Rightarrow> jsval \<Rightarrow> jsval \<Rightarrow> request list
     \<Rightarrow> ('e, 'j) outcome \<times> request list" where
  "episode env showid season episode_no options =
     (let query = [(ustr ''season'', season), (ustr ''number'', episode_no)] in
      sendRequest env (ustr ''shows/'' @ js_to_string showid @ ustr ''/episodebynumber'')
        (JObj (Object_assign [] [options, JObj [(ustr ''query'', JObj query)]])))"

definition episodesByDate ::
  "('e, 'j) env \<Rightarrow> jsval \<Rightarrow> jsval \<Rightarrow> jsval \<Rightarrow> request list \<Rightarrow> ('e, 'j) outcome \<times> request list" where
  "episodesByDate env showid date options =
     (let query = [(ustr ''date'', date)] in
      sendRequest env (ustr ''shows/'' @ js_to_string showid @ ustr ''/episodesbydate'')
        (JObj (Object_assign [] [options, JObj [(ustr ''query'', JObj query)]])))"

definition seasons ::
  "('e, 'j) env \<Rightarrow> jsval \<Rightarrow> jsval \<Rightarrow> request list \<Rightarrow> ('e, 'j) outcome \<times> request list" where
  "seasons env showid options =
     sendRequest env (ustr ''shows/'' @ js_to_string showid @ ustr ''/seasons'') options"

definition seasonEpisodes ::
  "('e, 'j) env \<Rightarrow> jsval \<Rightarrow> jsval \<Rightarrow> request list \<Rightarrow> ('e, 'j) outcome \<times> request list" where
  "seasonEpisodes env seasonid options =
     sendRequest env (ustr ''seasons/'' @ js_to_string seasonid @ ustr ''/episodes'') options"

definition cast ::
  "('e, 'j) env \<Rightarrow> jsval \<Rightarrow> jsval \<Rightarrow> request list \<Rightarrow> ('e, 'j) outcome \<times> request list" where
  "cast env showid options =
     sendRequest env (ustr ''shows/'' @ js_to_string showid @ ustr ''/cast'') options"

definition crew ::
  "('e, 'j) env \<Rightarrow> jsval \<Rightarrow> jsval \<Rightarrow> request list \<Rightarrow> ('e, 'j) outcome \<times> request list" where
  "crew env showid options =
     sendRequest env (ustr ''shows/'' @ js_to_string showid @ ustr ''/crew'') options"

definition aliases ::
  "('e, 'j) env \<Rightarrow> jsval \<Rightarrow> jsval \<Rightarrow> request list \<Rightarrow> ('e, 'j) outcome \<times> request list" where
  "aliases env showid options =
     sendRequest env (ustr ''shows/'' @ js_to_string showid @ ustr ''/akas'') options"

definition showsIndex ::
  "('e, 'j) env \<Rightarrow> jsval \<Rightarrow> jsval \<Rightarrow> request list \<Rightarrow> ('e, 'j) outcome \<times> request list" where
  "showsIndex env page options =
     (let query = [(ustr ''page'', page)] in
      sendRequest env (ustr ''shows'')
        (JObj (Object_assign []
           [options, JObj [(ustr ''query'', if truthy page then JObj query else JNull)]])))"

definition showUpdates ::
  "('e, 'j) env \<Rightarrow> jsval \<Rightarrow> request list \<Rightarrow> ('e, 'j) outcome \<times> request list" where
  "showUpdates env options = sendRequest env (ustr ''updates/shows'') options"

definition person ::
  "('e, 'j) env \<Rightarrow> jsval \<Rightarrow> jsval \<Rightarrow> jsval \<Rightarrow> request list \<Rightarrow> ('e, 'j) outcome \<times> request list" where
  "person env personid embeds options =
     (let query = [(ustr ''embed[]'', embeds)] in
      sendRequest env (ustr ''people/'' @ js_to_string personid)
        (JObj (Object_assign []
           [options, JObj [(ustr ''query'', if truthy embeds then JObj query else JNull)]])))"

definition personCastCredits ::
  "('e, 'j) env \<Rightarrow> jsval \<Rightarrow> jsval \<Rightarrow> jsval \<Rightarrow> request list \<Rightarrow> ('e, 'j) outcome \<times> request list" where
  "personCastCredits env personid embeds options =
     (let query = [(ustr ''embed[]'', embeds)] in
      sendRequest env (ustr ''people/'' @ js_to_string personid @ ustr ''/castcredits'')
        (JObj (Object_assign []
           [options, JObj [(ustr ''query'', if truthy embeds then JObj query else JNull)]])))"

definition personCrewCredits ::
  "('e, 'j) env \<Rightarrow> jsval \<Rightarrow> jsval \<Rightarrow> jsval \<Rightarrow> request list \<Rightarrow> ('e, 'j) outcome \<times> request list" where
  "personCrewCredits env personid embeds options =
     (let query = [(ustr ''embed[]'', embeds)] in
      sendRequest env (ustr ''people/'' @ js_to_string personid @ ustr ''/crewcredits'')
        (JObj (Object_assign []
           [options, JObj [(ustr ''query'', if truthy embeds then JObj query else JNull)]])))"

section \<open>Notions used in the statements\<close>

text \<open>
  The request that \<open>sendRequest\<close> hands to the transport, given the part of the URL that
  follows the base URL: the method is always \<open>GET\<close>, scheme and headers come from the
  merged options.
\<close>

definition get_request :: "jsstring \<Rightarrow> jsval \<Rightarrow> jsstring \<Rightarrow> request" where
  "get_request version options rel =
     \<lparr>method' = ustr ''GET'',
      url = base_url version options @ rel,
      headers = obj_get (merge_options version options) (ustr ''header'')\<rparr>"

text \<open>
  Issuing one request and passing its outcome through: the call resolves with the \<open>data\<close>
  of the response or rejects with the error of the transport, and the network has gained
  the request.
\<close>

definition perform ::
  "('e, 'j) env \<Rightarrow> request \<Rightarrow> request list \<Rightarrow> ('e, 'j) outcome \<times> request list" where
  "perform env req net =
     (case axios env net req of Inr r \<Rightarrow> Resolves (data r) | Inl e \<Rightarrow> Rejects e, net @ [req])"

text \<open>
  What a call does once the part of its URL after the base URL has been computed: when
  that computation threw, the call throws the same error and the network is as before;
  otherwise the one request for that URL is performed.
\<close>

definition issue ::
  "('e, 'j) env \<Rightarrow> jsval \<Rightarrow> js_error + jsstring \<Rightarrow> request list
     \<Rightarrow> ('e, 'j) outcome \<times> request list" where
  "issue env options rel net =
     (case rel of
        Inl thrown \<Rightarrow> (Throws thrown, net)
      | Inr r \<Rightarrow> perform env (get_request (VERSION env) options r) net)"

text \<open>
  The values of a list of computations, in their order; the first error, when one of them
  threw.
\<close>

fun collect :: "(js_error + 'a) list \<Rightarrow> js_error + 'a list" where
  "collect [] = Inr []"
| "collect (r # rs) = and_then r (\<lambda>x. and_then (collect rs) (\<lambda>xs. Inr (x # xs)))"

text \<open>
  The \<open>key=value\<close> entries that one property of a query object contributes: one for each
  element of an array, one for any other value.
\<close>

fun field_entries :: "jsstring \<times> jsval \<Rightarrow> js_error + jsstring list" where
  "field_entries (k, JArr xs) =
     and_then (qsEscape k) (\<lambda>ek.
       and_then (collect (map encodeStringified xs)) (\<lambda>evs.
         Inr (map (\<lambda>ev. ek @ ustr ''='' @ ev) evs)))"
| "field_entries (k, v) =
     and_then (qsEscape k) (\<lambda>ek.
       and_then (encodeStringified v) (\<lambda>ev. Inr [ek @ ustr ''='' @ ev]))"

text \<open>The entries of all properties, in the order of the properties.\<close>

definition entries :: "(jsstring \<times> jsval) list \<Rightarrow> js_error + jsstring list" where
  "entries kvs = and_then (collect (map field_entries kvs)) (\<lambda>ess. Inr (concat ess))"

text \<open>Entries appended to a non-empty query string, each after a separator.\<close>

definition amp_tail :: "jsstring list \<Rightarrow> jsstring" where
  "amp_tail es = concat (map (\<lambda>e. ustr ''&'' @ e) es)"

text \<open>
  The search part of a URL, as \<open>url.format\<close> appends it: a question mark and the serialised
  query, or nothing when the query serialises to the empty string.
\<close>

definition query_part :: "jsval \<Rightarrow> js_error + jsstring" where
  "query_part q =
     and_then (stringify q) (\<lambda>qs. Inr (if qs \<noteq> [] then ustr ''?'' @ qs else []))"

text \<open>The code units \<open>0xD800\<close> to \<open>0xDFFF\<close>.\<close>

definition is_surrogate :: "16 word \<Rightarrow> bool" where
  "is_surrogate u = (55296 \<le> unat u \<and> unat u < 57344)"

text \<open>
  The strings of a query that \<open>querystring.stringify\<close> escapes: every key, every value
  that is a string and every string among the elements of a value that is an array.
\<close>

fun value_strings :: "jsval \<Rightarrow> jsstring list" where
  "value_strings (JStr s) = [s]"
| "value_strings (JArr xs) = concat (map (\<lambda>x. case x of JStr s \<Rightarrow> [s] | _ \<Rightarrow> []) xs)"
| "value_strings v = []"

definition query_strings :: "jsval \<Rightarrow> jsstring list" where
  "query_strings q =
     (if is_object q then concat (map (\<lambda>(k, v). k # value_strings v) (own_props q)) else [])"

text \<open>
  Two concrete environments for the examples: a transport that answers every request
  with status 200 and the requested URL as its body, and one that rejects every request.
\<close>

definition env_ok :: "(jsstring, jsval) env" where
  "env_ok = \<lparr>VERSION = ustr ''1.0.0'',
             axios = (\<lambda>net req. Inr \<lparr>data = JStr (url req), status = 200\<rparr>)\<rparr>"

definition env_fail :: "(jsstring, jsval) env" where
  "env_fail = \<lparr>VERSION = ustr ''1.0.0'', axios = (\<lambda>net req. Inl (ustr ''ECONNREFUSED''))\<rparr>"

section \<open>Results and code units\<close>

lemma and_then_simps [simp]:
  "and_then (Inr x) f = f x" "and_then (Inl e) f = Inl e"
  by (simp_all add: and_then_def)

lemma js_error_eq [simp]: "(e :: js_error) = e'"
  by (cases e; cases e') simp

lemma and_then_Inr_iff:
  "and_then r f = Inr y \<longleftrightarrow> (\<exists>x. r = Inr x \<and> f x = Inr y)"
  by (cases r) auto

lemma unat_code_unit [simp]: "unat (code_unit c) = of_char c"
proof -
  have "(of_char c :: nat) < 2 ^ 16"
    by (rule less_trans [OF nat_of_char_less_256]) simp
  then show ?thesis
    by (simp add: code_unit_def unat_of_nat)
qed

lemma code_unit_eq_iff [simp]: "code_unit a = code_unit b \<longleftrightarrow> a = b"
proof
  assume "code_unit a = code_unit b"
  then have "unat (code_unit a) = unat (code_unit b)" by simp
  then show "a = b" by simp
qed simp

lemma ustr_eq_iff [simp]: "ustr a = ustr b \<longleftrightarrow> a = b"
  by (auto simp: ustr_def inj_on_def list_eq_iff_nth_eq)

lemma ustr_Nil [simp]: "ustr [] = []"
  by (simp add: ustr_def)

lemma ustr_eq_Nil [simp]: "ustr s = [] \<longleftrightarrow> s = []"
  by (simp add: ustr_def)

lemma ustr_Cons: "ustr (c # s) = code_unit c # ustr s"
  by (simp add: ustr_def)

lemma ustr_append: "ustr (a @ b) = ustr a @ ustr b"
  by (simp add: ustr_def)

lemma set_ustr: "set (ustr s) = code_unit ` set s"
  by (simp add: ustr_def)

section \<open>Objects and option merging\<close>

lemma map_of_obj_set: "map_of (obj_set k v kvs) = (map_of kvs)(k \<mapsto> v)"
  by (induction kvs) (auto simp: fun_eq_iff)

lemma keys_obj_set:
  "map fst (obj_set k v kvs) = (if k \<in> set (map fst kvs) then map fst kvs else map fst kvs @ [k])"
  by (induction kvs) (auto simp: image_iff, force+)

lemma distinct_obj_set: "distinct (map fst kvs) \<Longrightarrow> distinct (map fst (obj_set k v kvs))"
  by (simp add: keys_obj_set)

lemma map_of_assign_props:
  "map_of (fold (\<lambda>(k, v). obj_set k v) ps t) = map_of t ++ map_of (rev ps)"
proof (induction ps arbitrary: t)
  case Nil
  then show ?case by simp
next
  case (Cons p ps)
  obtain k v where p: "p = (k, v)" by (cases p)
  show ?case
    by (simp add: Cons p map_of_obj_set map_of_append fun_eq_iff map_add_def split: option.splits)
qed

lemma distinct_assign_props:
  "distinct (map fst t) \<Longrightarrow> distinct (map fst (fold (\<lambda>(k, v). obj_set k v) ps t))"
  by (induction ps arbitrary: t) (auto simp: distinct_obj_set)

lemma map_of_rev_distinct: "distinct (map fst kvs) \<Longrightarrow> map_of (rev kvs) = map_of kvs"
  by (metis distinct_rev map_of_inject_set rev_map set_rev)

lemma distinct_Object_assign:
  "distinct (map fst t) \<Longrightarrow> distinct (map fst (Object_assign t srcs))"
  unfolding Object_assign_def
  by (induction srcs arbitrary: t) (auto simp: distinct_assign_props)

lemma map_of_Object_assign2:
  "map_of (Object_assign t [a, b]) = map_of t ++ map_of (rev (own_props a)) ++ map_of (rev (own_props b))"
  by (simp add: Object_assign_def map_of_assign_props)

lemma map_of_merge_options:
  "map_of (merge_options ver options) =
     map_of (own_props (DEFAULT_OPTIONS ver)) ++ map_of (rev (own_props options))"
proof -
  have "distinct (map fst (own_props (DEFAULT_OPTIONS ver)))"
    by (simp add: DEFAULT_OPTIONS_def)
  then show ?thesis
    by (simp add: merge_options_def map_of_Object_assign2 map_of_rev_distinct)
qed

lemma merge_options_get:
  assumes "distinct (map fst kvs)"
  shows "obj_get (merge_options ver (JObj kvs)) k =
           (if k \<in> fst ` set kvs then obj_get kvs k
            else obj_get (own_props (DEFAULT_OPTIONS ver)) k)"
proof -
  have "map_of kvs k = None \<longleftrightarrow> k \<notin> fst ` set kvs"
    by (simp add: map_of_eq_None_iff)
  then show ?thesis
    using assms
    by (auto simp: obj_get_def map_of_merge_options map_of_rev_distinct map_add_def
             split: option.splits)
qed

lemma map_of_with_query:
  "map_of (rev (Object_assign [] [options, JObj [(ustr ''query'', Q)]])) =
     (map_of (rev (own_props options)))(ustr ''query'' \<mapsto> Q)"
proof -
  have "distinct (map fst (Object_assign [] [options, JObj [(ustr ''query'', Q)]]))"
    by (rule distinct_Object_assign) simp
  then show ?thesis
    by (simp add: map_of_rev_distinct map_of_Object_assign2 fun_eq_iff map_add_def)
qed

lemma merge_with_query:
  "obj_get (merge_options ver (JObj (Object_assign [] [options, JObj [(ustr ''query'', Q)]]))) k =
     (if k = ustr ''query'' then Q else obj_get (merge_options ver options) k)"
  by (simp add: obj_get_def map_of_merge_options map_of_with_query map_add_def)

lemma map_of_rev_obj_set_other:
  "k \<noteq> k' \<Longrightarrow> map_of (rev (obj_set k' v kvs)) k = map_of (rev kvs) k"
  by (induction kvs) (auto simp: map_of_append map_add_def split: option.splits)

lemma map_of_rev_obj_delete_other:
  "k \<noteq> k' \<Longrightarrow> map_of (rev (obj_delete k' kvs)) k = map_of (rev kvs) k"
  by (induction kvs) (auto simp: obj_delete_def map_of_append map_add_def split: option.splits)

lemma merge_ignores_query:
  "k \<noteq> (ustr ''query'') \<Longrightarrow>
     obj_get (merge_options ver (JObj (obj_set (ustr ''query'') q kvs))) k =
       obj_get (merge_options ver (JObj (obj_delete (ustr ''query'') kvs))) k"
  by (simp add: obj_get_def map_of_merge_options map_add_def
        map_of_rev_obj_set_other map_of_rev_obj_delete_other)

lemma no_query_field:
  "obj_get (merge_options ver (JObj (obj_delete (ustr ''query'') kvs))) (ustr ''query'') = JUndefined"
proof -
  have "map_of (rev (obj_delete (ustr ''query'') kvs)) (ustr ''query'') = None"
    by (auto simp: obj_delete_def map_of_eq_None_iff)
  then show ?thesis
    by (simp add: obj_get_def map_of_merge_options map_add_def DEFAULT_OPTIONS_def)
qed

lemma default_https: "obj_get (merge_options ver JUndefined) (ustr ''https'') = JBool False"
  by (simp add: merge_options_def Object_assign_def DEFAULT_OPTIONS_def obj_get_def)

lemma default_header:
  "obj_get (merge_options ver JUndefined) (ustr ''header'') =
     JObj [(ustr ''User-Agent'', JStr (ustr ''Mozilla/5.0 (Node.js) Tvmaze/'' @ ver))]"
  by (simp add: merge_options_def Object_assign_def DEFAULT_OPTIONS_def obj_get_def)

lemma default_query: "obj_get (merge_options ver JUndefined) (ustr ''query'') = JUndefined"
  by (simp add: merge_options_def Object_assign_def DEFAULT_OPTIONS_def obj_get_def)

section \<open>Escaped strings\<close>

lemma of_char_digit_char: "d < 10 \<Longrightarrow> (of_char (digit_char d) :: nat) = 48 + d"
  by (simp add: digit_char_def)

lemma of_char_hex_digit:
  "d < 16 \<Longrightarrow> (of_char (hex_digit d) :: nat) = (if d < 10 then 48 + d else 55 + d)"
  by (simp add: hex_digit_def)

lemma digit_char_plain: "d < 10 \<Longrightarrow> digit_char d \<noteq> CHR ''#'' \<and> digit_char d \<noteq> CHR ''?''"
proof -
  assume d: "d < 10"
  have "(of_char (digit_char d) :: nat) \<noteq> of_char CHR ''#''"
    "(of_char (digit_char d) :: nat) \<noteq> of_char CHR ''?''"
    using d by (simp_all add: of_char_digit_char)
  then show ?thesis by auto
qed

lemma hex_digit_no_hash: "d < 16 \<Longrightarrow> hex_digit d \<noteq> CHR ''#''"
proof -
  assume d: "d < 16"
  have "(of_char (hex_digit d) :: nat) \<noteq> of_char CHR ''#''"
    using d by (simp add: of_char_hex_digit)
  then show ?thesis by auto
qed

lemma string_of_nat_plain:
  "CHR ''#'' \<notin> set (string_of_nat n) \<and> CHR ''?'' \<notin> set (string_of_nat n)"
proof (induction n rule: string_of_nat.induct)
  case (1 n)
  show ?case
  proof (cases "n < 10")
    case True
    then show ?thesis
      using digit_char_plain[of n] by (subst (1 2) string_of_nat.simps) auto
  next
    case False
    have "n mod 10 < 10" by simp
    then show ?thesis
      using False 1 digit_char_plain[of "n mod 10"] by (subst (1 2) string_of_nat.simps) auto
  qed
qed

lemma decimal_plain: "CHR ''#'' \<notin> set (decimal i) \<and> CHR ''?'' \<notin> set (decimal i)"
  using string_of_nat_plain by (simp add: decimal_def)

lemma number_to_string_plain:
  "code_unit CHR ''#'' \<notin> set (number_to_string n)"
  "code_unit CHR ''?'' \<notin> set (number_to_string n)"
  using decimal_plain [of "Rep_safe_int n"] by (auto simp: number_to_string_def set_ustr)

lemma hexTable_no_hash: "c < 256 \<Longrightarrow> code_unit CHR ''#'' \<notin> set (hexTable c)"
proof -
  assume "c < 256"
  then have "c div 16 < 16" "c mod 16 < 16" by simp_all
  then show ?thesis
    using hex_digit_no_hash[of "c div 16"] hex_digit_no_hash[of "c mod 16"]
    by (auto simp: hexTable_def set_ustr)
qed

lemma utf8_2_no_hash: "c < 2048 \<Longrightarrow> code_unit CHR ''#'' \<notin> set (utf8_2 c)"
proof -
  assume "c < 2048"
  then have "c div 64 < 32" by (simp add: div_less_iff_less_mult)
  moreover have "c mod 64 < 64" by simp
  ultimately have "192 + c div 64 < 256" "128 + c mod 64 < 256" by linarith+
  then show ?thesis
    by (simp add: utf8_2_def hexTable_no_hash)
qed

lemma utf8_3_no_hash: "c < 65536 \<Longrightarrow> code_unit CHR ''#'' \<notin> set (utf8_3 c)"
proof -
  assume "c < 65536"
  then have "c div 4096 < 16" by (simp add: div_less_iff_less_mult)
  moreover have "(c div 64) mod 64 < 64" "c mod 64 < 64" by simp_all
  ultimately have "224 + c div 4096 < 256" "128 + (c div 64) mod 64 < 256" "128 + c mod 64 < 256"
    by linarith+
  then show ?thesis
    by (simp add: utf8_3_def hexTable_no_hash)
qed

lemma utf8_4_no_hash: "c < 1114112 \<Longrightarrow> code_unit CHR ''#'' \<notin> set (utf8_4 c)"
proof -
  assume "c < 1114112"
  then have "c div 262144 < 5" by (simp add: div_less_iff_less_mult)
  moreover have "(c div 4096) mod 64 < 64" "(c div 64) mod 64 < 64" "c mod 64 < 64" by simp_all
  ultimately have "240 + c div 262144 < 256" "128 + (c div 4096) mod 64 < 256"
    "128 + (c div 64) mod 64 < 256" "128 + c mod 64 < 256"
    by linarith+
  then show ?thesis
    by (simp add: utf8_4_def hexTable_no_hash)
qed

lemma unat_unit_bound: "unat (u :: 16 word) < 65536"
  using unsigned_less [of u, where ?'a = nat] by simp

lemma kept_unit_no_hash: "noEscape (unat u) \<Longrightarrow> u \<noteq> code_unit CHR ''#''"
proof
  assume n: "noEscape (unat u)" and "u = code_unit CHR ''#''"
  then have "unat u = 35" by simp
  with n show False by (simp add: noEscape_def)
qed

lemma qsEscape_no_hash: "qsEscape s = Inr out \<Longrightarrow> code_unit CHR ''#'' \<notin> set out"
proof (induction s arbitrary: out rule: qsEscape.induct)
  case 1
  then show ?case by simp
next
  case (2 u s)
  let ?c = "unat u"
  consider (one) "?c < 128" | (two) "128 \<le> ?c" "?c < 2048"
    | (three) "2048 \<le> ?c" "?c < 55296 \<or> 57344 \<le> ?c"
    | (four) "55296 \<le> ?c" "?c < 57344"
    by linarith
  then show ?case
  proof cases
    case one
    with "2.prems" obtain o' where o': "qsEscape s = Inr o'"
      and out: "out = (if noEscape ?c then [u] else hexTable ?c) @ o'"
      by (auto simp: Let_def and_then_Inr_iff)
    have "code_unit CHR ''#'' \<notin> set o'"
      using "2.IH"(1) [OF refl one o'] .
    moreover have "code_unit CHR ''#'' \<notin> set (hexTable ?c)"
      using one by (intro hexTable_no_hash) simp
    ultimately show ?thesis
      using out kept_unit_no_hash [of u] by auto
  next
    case two
    with "2.prems" obtain o' where o': "qsEscape s = Inr o'" and out: "out = utf8_2 ?c @ o'"
      by (auto simp: Let_def and_then_Inr_iff)
    have "code_unit CHR ''#'' \<notin> set o'"
      using "2.IH"(2) [OF refl _ two(2) o'] two by simp
    then show ?thesis
      using out utf8_2_no_hash [OF two(2)] by simp
  next
    case three
    with "2.prems" obtain o' where o': "qsEscape s = Inr o'" and out: "out = utf8_3 ?c @ o'"
      by (auto simp: Let_def and_then_Inr_iff)
    have "code_unit CHR ''#'' \<notin> set o'"
      using "2.IH"(3) [OF refl _ _ three(2) o'] three by simp
    then show ?thesis
      using out utf8_3_no_hash [OF unat_unit_bound [of u]] by simp
  next
    case four
    with "2.prems" obtain u2 s' o' where s: "s = u2 # s'" and o': "qsEscape s' = Inr o'"
      and out: "out = utf8_4 (65536 + ((?c mod 1024) * 1024 + unat u2 mod 1024)) @ o'"
      by (auto simp: Let_def and_then_Inr_iff split: list.splits)
    have "code_unit CHR ''#'' \<notin> set o'"
      using "2.IH"(4) [OF refl _ _ _ s refl refl o'] four by simp
    moreover have "65536 + ((?c mod 1024) * 1024 + unat u2 mod 1024) < 1114112"
    proof -
      have "?c mod 1024 \<le> 1023" "unat u2 mod 1024 \<le> 1023"
        by (simp_all add: less_Suc_eq_le [symmetric])
      then have "(?c mod 1024) * 1024 \<le> 1023 * 1024" by simp
      then show ?thesis using \<open>unat u2 mod 1024 \<le> 1023\<close> by linarith
    qed
    ultimately show ?thesis
      using out utf8_4_no_hash by simp
  qed
qed

lemma qsEscape_throws:
  "qsEscape s = Inl err \<Longrightarrow> s \<noteq> [] \<and> is_surrogate (last s)"
proof (induction s rule: qsEscape.induct)
  case 1
  then show ?case by simp
next
  case (2 u s)
  let ?c = "unat u"
  consider (one) "?c < 128" | (two) "128 \<le> ?c" "?c < 2048"
    | (three) "2048 \<le> ?c" "?c < 55296 \<or> 57344 \<le> ?c"
    | (four) "55296 \<le> ?c" "?c < 57344"
    by linarith
  then show ?case
  proof cases
    case one
    with "2.prems" have "qsEscape s = Inl err"
      by (cases "qsEscape s") (auto simp: Let_def)
    with "2.IH"(1) [OF refl one] show ?thesis by simp
  next
    case two
    with "2.prems" have "qsEscape s = Inl err"
      by (cases "qsEscape s") (auto simp: Let_def)
    with "2.IH"(2) [OF refl _ two(2)] two show ?thesis by simp
  next
    case three
    with "2.prems" have "qsEscape s = Inl err"
      by (cases "qsEscape s") (auto simp: Let_def)
    with "2.IH"(3) [OF refl _ _ three(2)] three show ?thesis by simp
  next
    case four
    show ?thesis
    proof (cases s)
      case Nil
      with four show ?thesis by (simp add: is_surrogate_def)
    next
      case (Cons u2 s')
      with four "2.prems" have e: "qsEscape s' = Inl err"
        by (cases "qsEscape s'") (auto simp: Let_def)
      have "s' \<noteq> [] \<and> is_surrogate (last s')"
        using "2.IH"(4) [OF refl _ _ _ Cons refl refl e] four by simp
      with Cons show ?thesis by simp
    qed
  qed
qed

lemma qsEscape_ustr: "\<exists>out. qsEscape (ustr s) = Inr out"
proof (cases "qsEscape (ustr s)")
  case (Inl err)
  then have "ustr s \<noteq> []" "is_surrogate (last (ustr s))"
    using qsEscape_throws by blast+
  then have "last (ustr s) \<in> code_unit ` set s"
    using last_in_set [of "ustr s"] by (simp add: set_ustr)
  then obtain c where "last (ustr s) = code_unit c" by auto
  with \<open>is_surrogate (last (ustr s))\<close> have "55296 \<le> (of_char c :: nat)"
    by (simp add: is_surrogate_def)
  moreover have "(of_char c :: nat) < 256" by simp
  ultimately show ?thesis by linarith
qed auto

lemma encodeStringified_JNum [simp]: "encodeStringified (JNum n) = Inr (number_to_string n)"
proof -
  have "\<bar>Rep_safe_int n\<bar> < 2 ^ 53"
    using Rep_safe_int [of n] by simp
  then have "\<bar>Rep_safe_int n\<bar> < 10 ^ 21" by simp
  then show ?thesis by simp
qed

declare encodeStringified.simps(2) [simp del]

lemma enc_key: "encodeStringified (JStr k) = qsEscape k"
  by (cases k) auto

lemma encodeStringified_no_hash:
  "encodeStringified v = Inr out \<Longrightarrow> code_unit CHR ''#'' \<notin> set out"
  by (cases v) (auto simp: qsEscape_no_hash number_to_string_plain set_ustr split: if_splits)

lemma escape_hash_id: "code_unit CHR ''#'' \<notin> set s \<Longrightarrow> escape_hash s = s"
  by (induction s) auto

lemma escape_pathname_id:
  "code_unit CHR ''#'' \<notin> set s \<Longrightarrow> code_unit CHR ''?'' \<notin> set s \<Longrightarrow> escape_pathname s = s"
  by (induction s) auto

lemma escape_pathname_append:
  "escape_pathname (s @ t) = escape_pathname s @ escape_pathname t"
  by (induction s) auto

lemma escape_pathname_number [simp]: "escape_pathname (number_to_string n) = number_to_string n"
  using number_to_string_plain [of n] by (simp add: escape_pathname_id)

lemma escape_pathname_ustr:
  "CHR ''#'' \<notin> set s \<Longrightarrow> CHR ''?'' \<notin> set s \<Longrightarrow> escape_pathname (ustr s) = ustr s"
  by (rule escape_pathname_id) (auto simp: set_ustr)

section \<open>Query strings\<close>

lemma amp_tail_simps [simp]:
  "amp_tail [] = []" "amp_tail (e # es) = ustr ''&'' @ e @ amp_tail es"
  "amp_tail (es @ fs) = amp_tail es @ amp_tail fs"
  by (simp_all add: amp_tail_def)

lemma join_with_amp: "join_with (ustr ''&'') (e # es) = e @ amp_tail es"
  by (induction es arbitrary: e) auto

lemma entries_Nil [simp]: "entries [] = Inr []"
  by (simp add: entries_def)

lemma entries_Cons:
  "entries (p # kvs) =
     and_then (field_entries p) (\<lambda>es. and_then (entries kvs) (\<lambda>es'. Inr (es @ es')))"
  by (cases "field_entries p"; cases "collect (map field_entries kvs)") (simp_all add: entries_def)

lemma entries_append:
  "entries (kvs @ kvs') =
     and_then (entries kvs) (\<lambda>es. and_then (entries kvs') (\<lambda>es'. Inr (es @ es')))"
proof (induction kvs)
  case Nil
  show ?case by (cases "entries kvs'") simp_all
next
  case (Cons p kvs)
  show ?case
    by (cases "field_entries p"; cases "entries kvs"; cases "entries kvs'")
      (simp_all add: entries_Cons Cons)
qed

lemma stringify_array_Suc:
  "stringify_array ks xs (Suc j) f =
     and_then (collect (map encodeStringified xs))
       (\<lambda>evs. Inr (f @ amp_tail (map (\<lambda>ev. ks @ ev) evs)))"
proof (induction xs arbitrary: j f)
  case Nil
  show ?case by simp
next
  case (Cons x xs)
  show ?case
    by (cases "encodeStringified x"; cases "collect (map encodeStringified xs)")
      (simp_all add: Cons)
qed

lemma stringify_array_0:
  "stringify_array ks (x # xs) 0 f =
     and_then (collect (map encodeStringified (x # xs)))
       (\<lambda>evs. Inr (f @ join_with (ustr ''&'') (map (\<lambda>ev. ks @ ev) evs)))"
  by (cases "encodeStringified x"; cases "collect (map encodeStringified xs)")
    (simp_all add: stringify_array_Suc join_with_amp)

lemma append_append_fun: "(@) (a @ b) = (\<lambda>x. a @ b @ x)"
  by (simp add: fun_eq_iff)

lemma field_entries_nonempty: "field_entries p = Inr es \<Longrightarrow> [] \<notin> set es"
proof (cases p)
  case (Pair k v)
  assume "field_entries p = Inr es"
  with Pair show ?thesis
    by (cases v) (auto simp: and_then_Inr_iff)
qed

lemma stringify_fields_closed:
  "stringify_fields kvs f =
     and_then (entries kvs)
       (\<lambda>es. Inr (if f \<noteq> [] then f @ amp_tail es else join_with (ustr ''&'') es))"
proof (induction kvs arbitrary: f)
  case Nil
  then show ?case by simp
next
  case (Cons p kvs)
  obtain k v where p: "p = (k, v)" by (cases p)
  show ?case
  proof (cases "qsEscape k")
    case (Inl err)
    then show ?thesis
      by (cases v) (simp_all add: p entries_Cons enc_key del: encodeStringified.simps)
  next
    case ek: (Inr ek)
    show ?thesis
    proof (cases v)
      case (JArr xs)
      show ?thesis
      proof (cases xs)
        case Nil
        with JArr ek show ?thesis
          by (cases "entries kvs")
            (simp_all add: p entries_Cons enc_key Cons.IH del: encodeStringified.simps)
      next
        case xs: (Cons y ys)
        show ?thesis
        proof (cases "collect (map encodeStringified (y # ys))")
          case (Inl err)
          with JArr ek xs show ?thesis
            by (simp add: p entries_Cons enc_key stringify_array_0
                  del: encodeStringified.simps stringify_array.simps collect.simps)
        next
          case (Inr evs)
          then obtain ev evs' where evs: "evs = ev # evs'"
            by (cases "encodeStringified y"; cases "collect (map encodeStringified ys)") auto
          with Inr JArr ek xs show ?thesis
            by (cases "entries kvs")
              (simp_all add: p entries_Cons enc_key stringify_array_0 Cons.IH join_with_amp
                append_append_fun
                del: encodeStringified.simps stringify_array.simps collect.simps)
        qed
      qed
    qed (cases "encodeStringified v"; cases "entries kvs";
         simp add: p ek entries_Cons enc_key Cons.IH join_with_amp
           del: encodeStringified.simps(1))+
  qed
qed

lemma stringify_JObj:
  "stringify (JObj kvs) = and_then (entries kvs) (\<lambda>es. Inr (join_with (ustr ''&'') es))"
  by (simp add: stringify_def stringify_fields_closed)

lemma stringify_not_object [simp]:
  "stringify JUndefined = Inr []" "stringify JNull = Inr []" "stringify (JBool b) = Inr []"
  "stringify (JNum n) = Inr []" "stringify (JStr s) = Inr []"
  by (simp_all add: stringify_def)

lemma collect_no_hash:
  "collect (map encodeStringified xs) = Inr evs \<Longrightarrow> ev \<in> set evs
     \<Longrightarrow> code_unit CHR ''#'' \<notin> set ev"
proof (induction xs arbitrary: evs)
  case Nil
  then show ?case by simp
next
  case (Cons x xs)
  from Cons.prems(1) obtain e es where e: "encodeStringified x = Inr e"
    and es: "collect (map encodeStringified xs) = Inr es" and evs: "evs = e # es"
    by (auto simp: and_then_Inr_iff)
  with Cons.prems(2) Cons.IH [OF es] encodeStringified_no_hash [OF e] show ?case by auto
qed

lemma equals_no_hash [simp]: "code_unit CHR ''#'' \<notin> set (ustr ''='')"
  "code_unit CHR ''#'' \<notin> set (ustr ''&'')"
  by (simp_all add: set_ustr)

lemma field_entries_no_hash:
  "field_entries p = Inr es \<Longrightarrow> e \<in> set es \<Longrightarrow> code_unit CHR ''#'' \<notin> set e"
proof (cases p)
  case (Pair k v)
  assume a: "field_entries p = Inr es" "e \<in> set es"
  show ?thesis
  proof (cases v)
    case (JArr xs)
    with a Pair obtain ek evs where "qsEscape k = Inr ek"
      "collect (map encodeStringified xs) = Inr evs" "es = map (\<lambda>ev. ek @ ustr ''='' @ ev) evs"
      by (auto simp: and_then_Inr_iff)
    with a(2) show ?thesis
      using qsEscape_no_hash [of k ek] collect_no_hash [of xs evs] by auto
  qed (use a Pair qsEscape_no_hash [of k] encodeStringified_no_hash [of v] in
        \<open>auto simp: and_then_Inr_iff simp del: encodeStringified.simps\<close>)
qed

lemma entries_no_hash:
  "entries kvs = Inr es \<Longrightarrow> e \<in> set es \<Longrightarrow> code_unit CHR ''#'' \<notin> set e"
proof (induction kvs arbitrary: es)
  case Nil
  then show ?case by simp
next
  case (Cons p kvs)
  from Cons.prems(1) obtain es1 es2 where "field_entries p = Inr es1" "entries kvs = Inr es2"
    "es = es1 @ es2"
    by (auto simp: entries_Cons and_then_Inr_iff)
  with Cons.prems(2) Cons.IH [of es2] field_entries_no_hash [of p es1 e] show ?case by auto
qed

lemma amp_tail_no_hash:
  "(\<And>e. e \<in> set es \<Longrightarrow> code_unit CHR ''#'' \<notin> set e) \<Longrightarrow> code_unit CHR ''#'' \<notin> set (amp_tail es)"
  by (induction es) auto

lemma join_no_hash:
  "(\<And>e. e \<in> set es \<Longrightarrow> code_unit CHR ''#'' \<notin> set e)
     \<Longrightarrow> code_unit CHR ''#'' \<notin> set (join_with (ustr ''&'') es)"
proof (cases es)
  case Nil
  then show ?thesis by simp
next
  case (Cons e es')
  assume "\<And>e. e \<in> set es \<Longrightarrow> code_unit CHR ''#'' \<notin> set e"
  with Cons show ?thesis
    by (auto simp: join_with_amp amp_tail_no_hash simp del: join_with.simps)
qed

lemma stringify_no_hash: "stringify q = Inr qs \<Longrightarrow> code_unit CHR ''#'' \<notin> set qs"
proof (cases "is_object q")
  case True
  assume "stringify q = Inr qs"
  with True obtain es where "entries (own_props q) = Inr es" "qs = join_with (ustr ''&'') es"
    by (auto simp: stringify_def stringify_fields_closed and_then_Inr_iff)
  then show ?thesis
    using entries_no_hash [of "own_props q" es] join_no_hash [of es] by blast
next
  case False
  assume "stringify q = Inr qs"
  with False show ?thesis by (simp add: stringify_def)
qed

lemma url_format_eq:
  "url_format path q = and_then (query_part q) (\<lambda>qp. Inr (escape_pathname path @ qp))"
proof (cases "stringify q")
  case (Inl err)
  then have "is_object q" by (auto simp: stringify_def split: if_splits)
  with Inl show ?thesis by (simp add: url_format_def query_part_def)
next
  case (Inr qs)
  have "(if is_object q then stringify q else Inr []) = stringify q"
    by (simp add: stringify_def)
  moreover have "escape_hash (ustr ''?'' @ qs) = ustr ''?'' @ qs"
    using stringify_no_hash [OF Inr] by (intro escape_hash_id) (simp add: set_ustr)
  ultimately show ?thesis
    using Inr by (simp add: url_format_def query_part_def Let_def ustr_Cons)
qed

lemma query_part_absent [simp]:
  "query_part JUndefined = Inr []" "query_part JNull = Inr []"
  by (simp_all add: query_part_def)

lemma query_part_JObj:
  "query_part (JObj kvs) =
     and_then (entries kvs)
       (\<lambda>es. Inr (case es of [] \<Rightarrow> [] | e # es' \<Rightarrow> ustr ''?'' @ e @ amp_tail es'))"
proof (cases "entries kvs")
  case (Inl err)
  then show ?thesis by (simp add: query_part_def stringify_JObj)
next
  case (Inr es)
  show ?thesis
  proof (cases es)
    case Nil
    with Inr show ?thesis by (simp add: query_part_def stringify_JObj)
  next
    case (Cons e es')
    have "e \<noteq> []"
    proof
      assume "e = []"
      with Cons Inr have "[] \<in> set es" by simp
      moreover have "\<And>kvs es. entries kvs = Inr es \<Longrightarrow> [] \<notin> set es"
      proof -
        fix kvs :: "(jsstring \<times> jsval) list" and es
        show "entries kvs = Inr es \<Longrightarrow> [] \<notin> set es"
        proof (induction kvs arbitrary: es)
          case Nil
          then show ?case by simp
        next
          case (Cons p kvs)
          from Cons.prems obtain es1 es2 where "field_entries p = Inr es1"
            "entries kvs = Inr es2" "es = es1 @ es2"
            by (auto simp: entries_Cons and_then_Inr_iff)
          with Cons.IH [of es2] field_entries_nonempty [of p es1] show ?case by auto
        qed
      qed
      ultimately show False using Inr by blast
    qed
    with Cons Inr show ?thesis
      by (simp add: query_part_def stringify_JObj join_with_amp del: join_with.simps)
  qed
qed

section \<open>Requests issued by \<open>sendRequest\<close>\<close>

lemma requestOpts_eq:
  "requestOpts ver path options =
     and_then (url_format path (obj_get (merge_options ver options) (ustr ''query'')))
       (\<lambda>rel. Inr (get_request ver options rel))"
  by (cases "url_format path (obj_get (merge_options ver options) (ustr ''query''))")
    (simp_all add: requestOpts_def requestUrl_def get_request_def)

lemma sendRequest_issue:
  "sendRequest env path options net =
     issue env options
       (url_format path (obj_get (merge_options (VERSION env) options) (ustr ''query''))) net"
  by (cases "url_format path (obj_get (merge_options (VERSION env) options) (ustr ''query''))")
    (simp_all add: sendRequest_def requestOpts_eq issue_def perform_def axios_call_def
      split: sum.splits)

lemma get_request_with_query:
  "get_request ver (JObj (Object_assign [] [options, JObj [(ustr ''query'', Q)]])) rel =
     get_request ver options rel"
  by (simp add: get_request_def base_url_def merge_with_query)

lemma issue_with_query:
  "issue env (JObj (Object_assign [] [options, JObj [(ustr ''query'', Q)]])) rel net =
     issue env options rel net"
  by (cases rel) (simp_all add: issue_def get_request_with_query)

lemma sendRequest_with_query:
  "sendRequest env path (JObj (Object_assign [] [options, JObj [(ustr ''query'', Q)]])) net =
     issue env options (url_format path Q) net"
  by (simp add: sendRequest_issue issue_with_query merge_with_query)

lemma snd_perform: "snd (perform env req net) = net @ [req]"
  by (simp add: perform_def)

lemma issue_Inr [simp]:
  "issue env options (Inr rel) net = perform env (get_request (VERSION env) options rel) net"
  by (simp add: issue_def)

lemma issue_Inl [simp]: "issue env options (Inl err) net = (Throws err, net)"
  by (simp add: issue_def)

lemma base_url_default: "base_url ver JUndefined = ustr ''http://api.tvmaze.com/''"
  by (simp add: base_url_def default_https BASE_URL_def ustr_append [symmetric])

lemma get_request_default:
  "get_request ver JUndefined rel =
     \<lparr>method' = ustr ''GET'', url = ustr ''http://api.tvmaze.com/'' @ rel,
      headers = JObj [(ustr ''User-Agent'', JStr (ustr ''Mozilla/5.0 (Node.js) Tvmaze/'' @ ver))]\<rparr>"
  by (simp add: get_request_def base_url_default default_header)

lemma get_request_ignores_query:
  "get_request ver (JObj (obj_set (ustr ''query'') q kvs)) rel =
     get_request ver (JObj (obj_delete (ustr ''query'') kvs)) rel"
  by (simp add: get_request_def base_url_def merge_ignores_query)

lemma issue_ignores_query:
  "issue env (JObj (obj_set (ustr ''query'') q kvs)) rel net =
     issue env (JObj (obj_delete (ustr ''query'') kvs)) rel net"
  by (cases rel) (simp_all add: issue_def get_request_ignores_query)

lemmas method_defs =
  search_def singleSearch_def searchPeople_def lookup_def schedule_def fullSchedule_def
  show_m_def episodes_def episode_def episodesByDate_def seasons_def seasonEpisodes_def
  cast_def crew_def aliases_def showsIndex_def showUpdates_def person_def
  personCastCredits_def personCrewCredits_def

lemma own_query_issue:
  "search env s options net =
     issue env options (url_format (ustr ''search/shows'') (JObj [(ustr ''q'', s)])) net"
  "singleSearch env s e options net =
     issue env options
       (url_format (ustr ''singlesearch/shows'')
          (JObj (if truthy e then [(ustr ''q'', s), (ustr ''embed[]'', e)]
                 else [(ustr ''q'', s)]))) net"
  "searchPeople env s options net =
     issue env options (url_format (ustr ''search/people'') (JObj [(ustr ''q'', s)])) net"
  "lookup env t i options net =
     issue env options
       (url_format (ustr ''lookup/shows'')
          (JObj (if js_to_string t = ustr ''__proto__'' then []
                 else [(js_to_string t, i)]))) net"
  "schedule env cc d options net =
     issue env options
       (url_format (ustr ''schedule'')
          (JObj [(ustr ''countrycode'', cc), (ustr ''date'', d)])) net"
  "show_m env showid e options net =
     issue env options
       (url_format (ustr ''shows/'' @ js_to_string showid)
          (if truthy e then JObj [(ustr ''embed[]'', e)] else JNull)) net"
  "episodes env showid sp options net =
     issue env options
       (url_format (ustr ''shows/'' @ js_to_string showid @ ustr ''/episodes'')
          (if truthy sp then JObj [(ustr ''specials'', JNum (Abs_safe_int 1))] else JNull)) net"
  "episode env showid se ep options net =
     issue env options
       (url_format (ustr ''shows/'' @ js_to_string showid @ ustr ''/episodebynumber'')
          (JObj [(ustr ''season'', se), (ustr ''number'', ep)])) net"
  "episodesByDate env showid d options net =
     issue env options
       (url_format (ustr ''shows/'' @ js_to_string showid @ ustr ''/episodesbydate'')
          (JObj [(ustr ''date'', d)])) net"
  "showsIndex env page options net =
     issue env options
       (url_format (ustr ''shows'')
          (if truthy page then JObj [(ustr ''page'', page)] else JNull)) net"
  "person env pid e options net =
     issue env options
       (url_format (ustr ''people/'' @ js_to_string pid)
          (if truthy e then JObj [(ustr ''embed[]'', e)] else JNull)) net"
  "personCastCredits env pid e options net =
     issue env options
       (url_format (ustr ''people/'' @ js_to_string pid @ ustr ''/castcredits'')
          (if truthy e then JObj [(ustr ''embed[]'', e)] else JNull)) net"
  "personCrewCredits env pid e options net =
     issue env options
       (url_format (ustr ''people/'' @ js_to_string pid @ ustr ''/crewcredits'')
          (if truthy e then JObj [(ustr ''embed[]'', e)] else JNull)) net"
  by (simp_all add: method_defs sendRequest_with_query obj_delete_def Let_def)

lemma passed_options_issue:
  "fullSchedule env options net =
     issue env options
       (url_format (ustr ''schedule/full'')
          (obj_get (merge_options (VERSION env) options) (ustr ''query''))) net"
  "seasons env showid options net =
     issue env options
       (url_format (ustr ''shows/'' @ js_to_string showid @ ustr ''/seasons'')
          (obj_get (merge_options (VERSION env) options) (ustr ''query''))) net"
  "seasonEpisodes env seasonid options net =
     issue env options
       (url_format (ustr ''seasons/'' @ js_to_string seasonid @ ustr ''/episodes'')
          (obj_get (merge_options (VERSION env) options) (ustr ''query''))) net"
  "cast env showid options net =
     issue env options
       (url_format (ustr ''shows/'' @ js_to_string showid @ ustr ''/cast'')
          (obj_get (merge_options (VERSION env) options) (ustr ''query''))) net"
  "crew env showid options net =
     issue env options
       (url_format (ustr ''shows/'' @ js_to_string showid @ ustr ''/crew'')
          (obj_get (merge_options (VERSION env) options) (ustr ''query''))) net"
  "aliases env showid options net =
     issue env options
       (url_format (ustr ''shows/'' @ js_to_string showid @ ustr ''/akas'')
          (obj_get (merge_options (VERSION env) options) (ustr ''query''))) net"
  "showUpdates env options net =
     issue env options
       (url_format (ustr ''updates/shows'')
          (obj_get (merge_options (VERSION env) options) (ustr ''query''))) net"
  by (simp_all add: method_defs sendRequest_issue)

section \<open>Concrete strings and numbers\<close>

lemma hex_digit_eval:
  "hex_digit 0 = CHR ''0''" "hex_digit 1 = CHR ''1''" "hex_digit (Suc 0) = CHR ''1''"
  "hex_digit 2 = CHR ''2''" "hex_digit 3 = CHR ''3''" "hex_digit 4 = CHR ''4''"
  "hex_digit 5 = CHR ''5''" "hex_digit 6 = CHR ''6''" "hex_digit 7 = CHR ''7''"
  "hex_digit 8 = CHR ''8''" "hex_digit 9 = CHR ''9''" "hex_digit 10 = CHR ''A''"
  "hex_digit 11 = CHR ''B''" "hex_digit 12 = CHR ''C''" "hex_digit 13 = CHR ''D''"
  "hex_digit 14 = CHR ''E''" "hex_digit 15 = CHR ''F''"
  by code_simp+

lemmas escape_eval =
  ustr_Cons noEscape_def hexTable_def utf8_2_def utf8_3_def utf8_4_def hex_digit_eval Let_def

lemma unat_numeral_16: "unat (26085 :: 16 word) = 26085" "unat (55357 :: 16 word) = 55357"
  "unat (56832 :: 16 word) = 56832" "unat (55296 :: 16 word) = 55296"
  by simp_all

lemma decimal_eval:
  "decimal 1 = ''1''" "decimal 174 = ''174''" "decimal 2 = ''2''" "decimal 396 = ''396''"
  by code_simp+

lemma Rep_small [simp]:
  "Rep_safe_int (Abs_safe_int 1) = 1" "Rep_safe_int (Abs_safe_int 2) = 2"
  "Rep_safe_int (Abs_safe_int 174) = 174" "Rep_safe_int (Abs_safe_int 396) = 396"
  by (simp_all add: Abs_safe_int_inverse)

lemma number_to_string_eval:
  "number_to_string (Abs_safe_int 1) = ustr ''1''"
  "number_to_string (Abs_safe_int 2) = ustr ''2''"
  "number_to_string (Abs_safe_int 174) = ustr ''174''"
  "number_to_string (Abs_safe_int 396) = ustr ''396''"
  by (simp_all add: number_to_string_def decimal_eval)

lemma qsEscape_examples:
  "qsEscape (ustr ''a b[]&%/#?z~'') = Inr (ustr ''a%20b%5B%5D%26%25%2F%23%3Fz~'')"
  "qsEscape [26085] = Inr (ustr ''%E6%97%A5'')"
  "qsEscape [55357, 56832] = Inr (ustr ''%F0%9F%98%80'')"
  "qsEscape [55296] = Inl URIError"
  "qsEscape (ustr ''q'' @ [55296]) = Inl URIError"
  by (simp_all add: escape_eval)

section \<open>The request of each method\<close>

lemma issued_request:
  "snd (sendRequest env path options net) = net @ [req]
     \<longleftrightarrow> requestOpts (VERSION env) path options = Inr req"
  by (cases "url_format path (obj_get (merge_options (VERSION env) options) (ustr ''query''))")
    (auto simp: sendRequest_issue requestOpts_eq snd_perform)

lemma requestOpts_default:
  "requestOpts ver path JUndefined =
     Inr \<lparr>method' = ustr ''GET'', url = ustr ''http://api.tvmaze.com/'' @ escape_pathname path,
          headers = JObj [(ustr ''User-Agent'',
                           JStr (ustr ''Mozilla/5.0 (Node.js) Tvmaze/'' @ ver))]\<rparr>"
  by (simp add: requestOpts_eq default_query url_format_eq get_request_default)

lemma sendRequest_cases:
  "(\<exists>req. snd (sendRequest env path options net) = net @ [req])
   \<or> sendRequest env path options net = (Throws URIError, net)"
  by (cases "url_format path (obj_get (merge_options (VERSION env) options) (ustr ''query''))")
    (auto simp: sendRequest_issue snd_perform)

lemma requestOpts_parts:
  "requestOpts ver path options = Inr req \<Longrightarrow>
     headers req = obj_get (merge_options ver options) (ustr ''header'')
     \<and> (\<exists>rel. url req = base_url ver options @ rel)"
  by (cases "url_format path (obj_get (merge_options ver options) (ustr ''query''))")
    (auto simp: requestOpts_eq get_request_def)

lemma ustr_append2: "ustr a @ ustr b @ x = ustr (a @ b) @ x"
  by (simp add: ustr_append)

lemmas ustr_join = ustr_append [symmetric] ustr_append2

lemma key_eval:
  "qsEscape (ustr ''q'') = Inr (ustr ''q'')"
  "qsEscape (ustr ''embed[]'') = Inr (ustr ''embed%5B%5D'')"
  "qsEscape (ustr ''countrycode'') = Inr (ustr ''countrycode'')"
  "qsEscape (ustr ''date'') = Inr (ustr ''date'')"
  "qsEscape (ustr ''season'') = Inr (ustr ''season'')"
  "qsEscape (ustr ''number'') = Inr (ustr ''number'')"
  "qsEscape (ustr ''specials'') = Inr (ustr ''specials'')"
  "qsEscape (ustr ''page'') = Inr (ustr ''page'')"
  "qsEscape (ustr ''thetvdb'') = Inr (ustr ''thetvdb'')"
  "qsEscape (ustr ''imdb'') = Inr (ustr ''imdb'')"
  "qsEscape (ustr ''tvrage'') = Inr (ustr ''tvrage'')"
  by (simp_all add: escape_eval)

lemma and_then_assoc:
  "and_then (and_then r f) g = and_then r (\<lambda>x. and_then (f x) g)"
  by (cases r) simp_all

lemma and_then_Inr_right [simp]: "and_then r Inr = r"
  by (cases r) simp_all

declare enc_key [simp]

declare encodeStringified.simps(1) [simp del]

lemmas url_eval =
  url_format_eq query_part_JObj entries_Cons key_eval enc_key and_then_assoc

lemma lookup_string_issue:
  "t \<noteq> ustr ''__proto__'' \<Longrightarrow> qsEscape t = Inr et \<Longrightarrow>
   lookup env (JStr t) (JStr i) options net =
     issue env options
       (and_then (qsEscape i) (\<lambda>ei. Inr (ustr ''lookup/shows?'' @ et @ ustr ''='' @ ei))) net"
  by (cases "qsEscape i")
    (simp_all add: own_query_issue url_format_eq query_part_JObj entries_Cons enc_key
      escape_pathname_ustr ustr_join)

lemma path_eval [simp]:
  "escape_pathname (ustr ''search/shows'') = ustr ''search/shows''"
  "escape_pathname (ustr ''singlesearch/shows'') = ustr ''singlesearch/shows''"
  "escape_pathname (ustr ''search/people'') = ustr ''search/people''"
  "escape_pathname (ustr ''lookup/shows'') = ustr ''lookup/shows''"
  "escape_pathname (ustr ''schedule'') = ustr ''schedule''"
  "escape_pathname (ustr ''schedule/full'') = ustr ''schedule/full''"
  "escape_pathname (ustr ''shows'') = ustr ''shows''"
  "escape_pathname (ustr ''shows/'') = ustr ''shows/''"
  "escape_pathname (ustr ''seasons/'') = ustr ''seasons/''"
  "escape_pathname (ustr ''people/'') = ustr ''people/''"
  "escape_pathname (ustr ''updates/shows'') = ustr ''updates/shows''"
  "escape_pathname (ustr ''/episodes'') = ustr ''/episodes''"
  "escape_pathname (ustr ''/episodebynumber'') = ustr ''/episodebynumber''"
  "escape_pathname (ustr ''/episodesbydate'') = ustr ''/episodesbydate''"
  "escape_pathname (ustr ''/seasons'') = ustr ''/seasons''"
  "escape_pathname (ustr ''/cast'') = ustr ''/cast''"
  "escape_pathname (ustr ''/crew'') = ustr ''/crew''"
  "escape_pathname (ustr ''/akas'') = ustr ''/akas''"
  "escape_pathname (ustr ''/castcredits'') = ustr ''/castcredits''"
  "escape_pathname (ustr ''/crewcredits'') = ustr ''/crewcredits''"
  by (simp_all add: escape_pathname_ustr)

lemma url_format_absent [simp]:
  "url_format path JNull = Inr (escape_pathname path)"
  "url_format path JUndefined = Inr (escape_pathname path)"
  by (simp_all add: url_format_eq)

lemma issue_and_then:
  "issue env options (and_then r (\<lambda>x. Inr (f x))) net =
     (case r of Inl err \<Rightarrow> (Throws err, net)
      | Inr x \<Rightarrow> perform env (get_request (VERSION env) options (f x)) net)"
  by (cases r) simp_all

lemma string_templates:
  "search env (JStr s) options net =
     issue env options (and_then (qsEscape s) (\<lambda>q. Inr (ustr ''search/shows?q='' @ q))) net"
  "searchPeople env (JStr s) options net =
     issue env options (and_then (qsEscape s) (\<lambda>q. Inr (ustr ''search/people?q='' @ q))) net"
  "singleSearch env (JStr s) JUndefined options net =
     issue env options
       (and_then (qsEscape s) (\<lambda>q. Inr (ustr ''singlesearch/shows?q='' @ q))) net"
  "schedule env (JStr cc) (JStr d) options net =
     issue env options
       (and_then (qsEscape cc) (\<lambda>c. and_then (qsEscape d) (\<lambda>e.
          Inr (ustr ''schedule?countrycode='' @ c @ ustr ''&date='' @ e)))) net"
  "episodesByDate env showid (JStr d) options net =
     issue env options
       (and_then (qsEscape d) (\<lambda>e.
          Inr (ustr ''shows/'' @ escape_pathname (js_to_string showid)
                 @ ustr ''/episodesbydate?date='' @ e))) net"
  by (simp_all add: own_query_issue url_eval escape_pathname_append ustr_join)

lemma lookup_template:
  "lookup env (JStr t) (JStr i) options net =
     (if t = ustr ''__proto__''
      then perform env (get_request (VERSION env) options (ustr ''lookup/shows'')) net
      else issue env options
             (and_then (qsEscape t) (\<lambda>k. and_then (qsEscape i) (\<lambda>v.
                Inr (ustr ''lookup/shows?'' @ k @ ustr ''='' @ v)))) net)"
  by (simp add: own_query_issue url_format_eq query_part_JObj entries_Cons and_then_assoc
        ustr_join)

lemma embed_entries:
  "entries [(ustr ''embed[]'', JArr xs)] =
     and_then (collect (map encodeStringified xs))
       (\<lambda>evs. Inr (map (\<lambda>ev. ustr ''embed%5B%5D='' @ ev) evs))"
  by (simp add: entries_Cons key_eval and_then_assoc ustr_join)

lemma collect_Cons_Inr:
  "collect (r # rs) = Inr evs \<Longrightarrow> \<exists>ev evs'. evs = ev # evs'"
  by (cases r; cases "collect rs") auto

lemma embed_query:
  "url_format path (JObj [(ustr ''embed[]'', JArr (x # xs))]) =
     and_then (collect (map encodeStringified (x # xs)))
       (\<lambda>evs. Inr (escape_pathname path @ ustr ''?''
                     @ join_with (ustr ''&'') (map (\<lambda>ev. ustr ''embed%5B%5D='' @ ev) evs)))"
proof (cases "collect (map encodeStringified (x # xs))")
  case (Inl err)
  then show ?thesis
    by (simp add: url_format_eq query_part_JObj embed_entries del: collect.simps)
next
  case (Inr evs)
  then obtain ev evs' where "evs = ev # evs'"
    using collect_Cons_Inr [of "encodeStringified x" "map encodeStringified xs" evs] by auto
  with Inr show ?thesis
    by (simp add: url_format_eq query_part_JObj embed_entries join_with_amp
          del: collect.simps)
qed

lemma q_embed_query:
  "url_format path (JObj [(ustr ''q'', JStr s), (ustr ''embed[]'', JArr (x # xs))]) =
     and_then (qsEscape s) (\<lambda>q.
       and_then (collect (map encodeStringified (x # xs)))
         (\<lambda>evs. Inr (escape_pathname path @ ustr ''?q='' @ q @ ustr ''&''
                     @ join_with (ustr ''&'') (map (\<lambda>ev. ustr ''embed%5B%5D='' @ ev) evs))))"
proof (cases "qsEscape s")
  case (Inl err)
  then show ?thesis
    by (simp add: url_format_eq query_part_JObj entries_Cons key_eval del: collect.simps)
next
  case q: (Inr q)
  show ?thesis
  proof (cases "collect (map encodeStringified (x # xs))")
    case (Inl err)
    with q show ?thesis
      using embed_entries [of "x # xs"]
      by (simp add: url_format_eq query_part_JObj entries_Cons [of "(ustr ''q'', JStr s)"]
            key_eval del: collect.simps)
  next
    case (Inr evs)
    then obtain ev evs' where "evs = ev # evs'"
      using collect_Cons_Inr [of "encodeStringified x" "map encodeStringified xs" evs] by auto
    with Inr q show ?thesis
      using embed_entries [of "x # xs"]
      by (simp add: url_format_eq query_part_JObj entries_Cons [of "(ustr ''q'', JStr s)"]
            key_eval join_with_amp ustr_join del: collect.simps)
  qed
qed

lemma embed_templates:
  "singleSearch env (JStr s) (JArr (x # xs)) options net =
     issue env options
       (and_then (qsEscape s) (\<lambda>q.
          and_then (collect (map encodeStringified (x # xs))) (\<lambda>evs.
            Inr (ustr ''singlesearch/shows?q='' @ q @ ustr ''&''
                 @ join_with (ustr ''&'') (map (\<lambda>ev. ustr ''embed%5B%5D='' @ ev) evs))))) net"
  "show_m env showid (JArr (x # xs)) options net =
     issue env options
       (and_then (collect (map encodeStringified (x # xs))) (\<lambda>evs.
          Inr (ustr ''shows/'' @ escape_pathname (js_to_string showid) @ ustr ''?''
               @ join_with (ustr ''&'') (map (\<lambda>ev. ustr ''embed%5B%5D='' @ ev) evs)))) net"
  "person env pid (JArr (x # xs)) options net =
     issue env options
       (and_then (collect (map encodeStringified (x # xs))) (\<lambda>evs.
          Inr (ustr ''people/'' @ escape_pathname (js_to_string pid) @ ustr ''?''
               @ join_with (ustr ''&'') (map (\<lambda>ev. ustr ''embed%5B%5D='' @ ev) evs)))) net"
  "personCastCredits env pid (JArr (x # xs)) options net =
     issue env options
       (and_then (collect (map encodeStringified (x # xs))) (\<lambda>evs.
          Inr (ustr ''people/'' @ escape_pathname (js_to_string pid) @ ustr ''/castcredits?''
               @ join_with (ustr ''&'') (map (\<lambda>ev. ustr ''embed%5B%5D='' @ ev) evs)))) net"
  "personCrewCredits env pid (JArr (x # xs)) options net =
     issue env options
       (and_then (collect (map encodeStringified (x # xs))) (\<lambda>evs.
          Inr (ustr ''people/'' @ escape_pathname (js_to_string pid) @ ustr ''/crewcredits?''
               @ join_with (ustr ''&'') (map (\<lambda>ev. ustr ''embed%5B%5D='' @ ev) evs)))) net"
  by (simp_all add: own_query_issue embed_query q_embed_query escape_pathname_append ustr_join
        del: collect.simps)

lemma plain_templates:
  "show_m env showid JUndefined options net =
     perform env (get_request (VERSION env) options
       (ustr ''shows/'' @ escape_pathname (js_to_string showid))) net"
  "episodes env showid sp options net =
     perform env (get_request (VERSION env) options
       (ustr ''shows/'' @ escape_pathname (js_to_string showid) @ ustr ''/episodes''
          @ (if truthy sp then ustr ''?specials=1'' else []))) net"
  "episode env showid (JNum se) (JNum ep) options net =
     perform env (get_request (VERSION env) options
       (ustr ''shows/'' @ escape_pathname (js_to_string showid)
          @ ustr ''/episodebynumber?season='' @ number_to_string se
          @ ustr ''&number='' @ number_to_string ep)) net"
  "showsIndex env JUndefined options net =
     perform env (get_request (VERSION env) options (ustr ''shows'')) net"
  "showsIndex env (JNum p) options net =
     perform env (get_request (VERSION env) options
       (ustr ''shows''
          @ (if Rep_safe_int p = 0 then [] else ustr ''?page='' @ number_to_string p))) net"
  "person env pid JUndefined options net =
     perform env (get_request (VERSION env) options
       (ustr ''people/'' @ escape_pathname (js_to_string pid))) net"
  "personCastCredits env pid JUndefined options net =
     perform env (get_request (VERSION env) options
       (ustr ''people/'' @ escape_pathname (js_to_string pid) @ ustr ''/castcredits'')) net"
  "personCrewCredits env pid JUndefined options net =
     perform env (get_request (VERSION env) options
       (ustr ''people/'' @ escape_pathname (js_to_string pid) @ ustr ''/crewcredits'')) net"
  by (simp_all add: own_query_issue url_eval escape_pathname_append ustr_join
        number_to_string_eval)

lemma passed_templates:
  "fullSchedule env options net =
     issue env options
       (and_then (query_part (obj_get (merge_options (VERSION env) options) (ustr ''query'')))
          (\<lambda>qp. Inr (ustr ''schedule/full'' @ qp))) net"
  "seasons env showid options net =
     issue env options
       (and_then (query_part (obj_get (merge_options (VERSION env) options) (ustr ''query'')))
          (\<lambda>qp. Inr (ustr ''shows/'' @ escape_pathname (js_to_string showid)
                        @ ustr ''/seasons'' @ qp))) net"
  "seasonEpisodes env seasonid options net =
     issue env options
       (and_then (query_part (obj_get (merge_options (VERSION env) options) (ustr ''query'')))
          (\<lambda>qp. Inr (ustr ''seasons/'' @ escape_pathname (js_to_string seasonid)
                        @ ustr ''/episodes'' @ qp))) net"
  "cast env showid options net =
     issue env options
       (and_then (query_part (obj_get (merge_options (VERSION env) options) (ustr ''query'')))
          (\<lambda>qp. Inr (ustr ''shows/'' @ escape_pathname (js_to_string showid)
                        @ ustr ''/cast'' @ qp))) net"
  "crew env showid options net =
     issue env options
       (and_then (query_part (obj_get (merge_options (VERSION env) options) (ustr ''query'')))
          (\<lambda>qp. Inr (ustr ''shows/'' @ escape_pathname (js_to_string showid)
                        @ ustr ''/crew'' @ qp))) net"
  "aliases env showid options net =
     issue env options
       (and_then (query_part (obj_get (merge_options (VERSION env) options) (ustr ''query'')))
          (\<lambda>qp. Inr (ustr ''shows/'' @ escape_pathname (js_to_string showid)
                        @ ustr ''/akas'' @ qp))) net"
  "showUpdates env options net =
     issue env options
       (and_then (query_part (obj_get (merge_options (VERSION env) options) (ustr ''query'')))
          (\<lambda>qp. Inr (ustr ''updates/shows'' @ qp))) net"
  by (simp_all add: passed_options_issue url_format_eq escape_pathname_append)

lemma wrapper_issue:
  "lookupThetvdb env i options net =
     issue env options (url_format (ustr ''lookup/shows'') (JObj [(ustr ''thetvdb'', i)])) net"
  "lookupImdb env i options net =
     issue env options (url_format (ustr ''lookup/shows'') (JObj [(ustr ''imdb'', i)])) net"
  "lookupTvrage env i options net =
     issue env options (url_format (ustr ''lookup/shows'') (JObj [(ustr ''tvrage'', i)])) net"
  by (simp_all add: lookupThetvdb_def lookupImdb_def lookupTvrage_def own_query_issue)

lemma wrapper_templates:
  "lookupThetvdb env (JStr i) options net =
     issue env options
       (and_then (qsEscape i) (\<lambda>v. Inr (ustr ''lookup/shows?thetvdb='' @ v))) net"
  "lookupImdb env (JStr i) options net =
     issue env options
       (and_then (qsEscape i) (\<lambda>v. Inr (ustr ''lookup/shows?imdb='' @ v))) net"
  "lookupTvrage env (JStr i) options net =
     issue env options
       (and_then (qsEscape i) (\<lambda>v. Inr (ustr ''lookup/shows?tvrage='' @ v))) net"
  by (simp_all add: wrapper_issue url_eval ustr_join)

lemma wrapper_missing:
  "lookupThetvdb env JUndefined options net =
     perform env (get_request (VERSION env) options (ustr ''lookup/shows?thetvdb='')) net"
  "lookupImdb env JUndefined options net =
     perform env (get_request (VERSION env) options (ustr ''lookup/shows?imdb='')) net"
  "lookupTvrage env JUndefined options net =
     perform env (get_request (VERSION env) options (ustr ''lookup/shows?tvrage='')) net"
  by (simp_all add: wrapper_issue url_eval ustr_join)

lemma null_entry:
  "field_entries (k, JNull) = and_then (qsEscape k) (\<lambda>ek. Inr [ek @ ustr ''=''])"
  "field_entries (k, JUndefined) = and_then (qsEscape k) (\<lambda>ek. Inr [ek @ ustr ''=''])"
  by simp_all

lemma stringify_null:
  assumes "field_entries (k, v) = and_then (qsEscape k) (\<lambda>ek. Inr [ek @ ustr ''=''])"
  shows "stringify (JObj (kvs @ (k, v) # kvs')) =
     and_then (entries kvs) (\<lambda>es. and_then (qsEscape k) (\<lambda>ek.
       and_then (entries kvs') (\<lambda>es'.
         Inr (join_with (ustr ''&'') (es @ [ek @ ustr ''=''] @ es')))))"
  by (cases "entries kvs"; cases "qsEscape k"; cases "entries kvs'")
    (simp_all add: stringify_JObj entries_append entries_Cons assms)

lemma url_format_null:
  assumes "field_entries (k, v) = and_then (qsEscape k) (\<lambda>ek. Inr [ek @ ustr ''=''])"
  shows "url_format path (JObj [(k, v)]) =
     and_then (qsEscape k) (\<lambda>ek. Inr (escape_pathname path @ ustr ''?'' @ ek @ ustr ''=''))"
  by (cases "qsEscape k") (simp_all add: url_format_eq query_part_JObj entries_Cons assms)

lemma collect_throws: "collect rs = Inl err \<Longrightarrow> \<exists>r\<in>set rs. r = Inl URIError"
proof (induction rs)
  case Nil
  then show ?case by simp
next
  case (Cons r rs)
  then show ?case
    by (cases r; cases "collect rs") auto
qed

lemma encodeStringified_throws:
  "encodeStringified x = Inl err \<Longrightarrow> \<exists>s. x = JStr s \<and> qsEscape s = Inl URIError"
  by (cases x) auto

lemma field_entries_throws:
  assumes "field_entries (k, v) = Inl err"
  shows "\<exists>s\<in>set (k # value_strings v). s \<noteq> [] \<and> is_surrogate (last s)"
proof (cases "qsEscape k")
  case (Inl e)
  then show ?thesis
    using qsEscape_throws [of k] by simp
next
  case ek: (Inr ek)
  show ?thesis
  proof (cases v)
    case (JArr xs)
    with assms ek have "collect (map encodeStringified xs) = Inl URIError"
      by (cases "collect (map encodeStringified xs)") simp_all
    then obtain x where x: "x \<in> set xs" "encodeStringified x = Inl URIError"
      using collect_throws [of "map encodeStringified xs"] by auto
    then obtain s where s: "x = JStr s" "qsEscape s = Inl URIError"
      using encodeStringified_throws by blast
    with x have "s \<in> set (value_strings (JArr xs))"
      by force
    with s JArr show ?thesis
      using qsEscape_throws [of s] by auto
  next
    case (JStr s)
    with assms ek have "qsEscape s = Inl URIError"
      by (cases "qsEscape s") simp_all
    with JStr show ?thesis
      using qsEscape_throws [of s] by simp
  qed (use assms ek in simp_all)
qed

lemma entries_throws:
  assumes "entries kvs = Inl err"
  shows "\<exists>s\<in>set (concat (map (\<lambda>(k, v). k # value_strings v) kvs)).
           s \<noteq> [] \<and> is_surrogate (last s)"
proof -
  from assms have "collect (map field_entries kvs) = Inl URIError"
    by (cases "collect (map field_entries kvs)") (simp_all add: entries_def)
  then obtain p where p: "p \<in> set kvs" "field_entries p = Inl URIError"
    using collect_throws [of "map field_entries kvs"] by auto
  obtain k v where kv: "p = (k, v)" by (cases p)
  with p obtain s where "s \<in> set (k # value_strings v)" "s \<noteq> []" "is_surrogate (last s)"
    using field_entries_throws [of k v] by blast
  with p(1) kv show ?thesis
    by (intro bexI [of _ s]) (auto intro!: bexI [of _ "(k, v)"])
qed

lemma url_format_cases:
  "(\<exists>rel. url_format path q = Inr rel)
   \<or> (\<exists>s\<in>set (query_strings q). s \<noteq> [] \<and> is_surrogate (last s))"
proof (cases "url_format path q")
  case (Inl err)
  then have st: "stringify q = Inl URIError"
    by (cases "stringify q") (simp_all add: url_format_eq query_part_def)
  then have o: "is_object q"
    by (auto simp: stringify_def split: if_splits)
  with st have "entries (own_props q) = Inl URIError"
    by (cases "entries (own_props q)") (simp_all add: stringify_def stringify_fields_closed)
  then show ?thesis
    using entries_throws [of "own_props q"] o by (simp add: query_strings_def)
qed simp

lemma missing_templates:
  "search env JUndefined options net =
     perform env (get_request (VERSION env) options (ustr ''search/shows?q='')) net"
  "searchPeople env JUndefined options net =
     perform env (get_request (VERSION env) options (ustr ''search/people?q='')) net"
  "singleSearch env JUndefined JUndefined options net =
     perform env (get_request (VERSION env) options (ustr ''singlesearch/shows?q='')) net"
  "lookup env (JStr (ustr ''imdb'')) JUndefined options net =
     perform env (get_request (VERSION env) options (ustr ''lookup/shows?imdb='')) net"
  "lookup env JUndefined JUndefined options net =
     perform env (get_request (VERSION env) options (ustr ''lookup/shows?undefined='')) net"
  "schedule env JUndefined JUndefined options net =
     perform env (get_request (VERSION env) options (ustr ''schedule?countrycode=&date='')) net"
  "show_m env JUndefined JUndefined options net =
     perform env (get_request (VERSION env) options (ustr ''shows/undefined'')) net"
  "episodes env JUndefined JUndefined options net =
     perform env (get_request (VERSION env) options (ustr ''shows/undefined/episodes'')) net"
  "episode env JUndefined JUndefined JUndefined options net =
     perform env (get_request (VERSION env) options
       (ustr ''shows/undefined/episodebynumber?season=&number='')) net"
  "episodesByDate env JUndefined JUndefined options net =
     perform env (get_request (VERSION env) options
       (ustr ''shows/undefined/episodesbydate?date='')) net"
  "person env JUndefined JUndefined options net =
     perform env (get_request (VERSION env) options (ustr ''people/undefined'')) net"
  "personCastCredits env JUndefined JUndefined options net =
     perform env (get_request (VERSION env) options (ustr ''people/undefined/castcredits'')) net"
  "personCrewCredits env JUndefined JUndefined options net =
     perform env (get_request (VERSION env) options (ustr ''people/undefined/crewcredits'')) net"
  by (simp_all add: own_query_issue url_eval escape_pathname_append escape_pathname_ustr
        escape_eval ustr_join)

lemma missing_id_templates:
  "seasons env JUndefined options net =
     issue env options
       (and_then (query_part (obj_get (merge_options (VERSION env) options) (ustr ''query'')))
          (\<lambda>qp. Inr (ustr ''shows/undefined/seasons'' @ qp))) net"
  "seasonEpisodes env JUndefined options net =
     issue env options
       (and_then (query_part (obj_get (merge_options (VERSION env) options) (ustr ''query'')))
          (\<lambda>qp. Inr (ustr ''seasons/undefined/episodes'' @ qp))) net"
  "cast env JUndefined options net =
     issue env options
       (and_then (query_part (obj_get (merge_options (VERSION env) options) (ustr ''query'')))
          (\<lambda>qp. Inr (ustr ''shows/undefined/cast'' @ qp))) net"
  "crew env JUndefined options net =
     issue env options
       (and_then (query_part (obj_get (merge_options (VERSION env) options) (ustr ''query'')))
          (\<lambda>qp. Inr (ustr ''shows/undefined/crew'' @ qp))) net"
  "aliases env JUndefined options net =
     issue env options
       (and_then (query_part (obj_get (merge_options (VERSION env) options) (ustr ''query'')))
          (\<lambda>qp. Inr (ustr ''shows/undefined/akas'' @ qp))) net"
  by (simp_all add: passed_templates escape_pathname_ustr ustr_join)

lemma lone_surrogate: "qsEscape [55296] = Inl URIError"
  by simp

lemma star_eval:
  "qsEscape (ustr ''star vs the forces of evil'') = Inr (ustr ''star%20vs%20the%20forces%20of%20evil'')"
  "qsEscape (ustr ''episodes'') = Inr (ustr ''episodes'')"
  by (simp_all add: escape_eval)

lemma collect_strings:
  "collect (map encodeStringified (map JStr es)) = collect (map qsEscape es)"
  by (induction es) simp_all

lemma string_embed_templates:
  "singleSearch env (JStr s) (JArr (map JStr (e # es))) options net =
     issue env options
       (and_then (qsEscape s) (\<lambda>q.
          and_then (collect (map qsEscape (e # es))) (\<lambda>evs.
            Inr (ustr ''singlesearch/shows?q='' @ q @ ustr ''&''
                 @ join_with (ustr ''&'') (map (\<lambda>ev. ustr ''embed%5B%5D='' @ ev) evs))))) net"
  "show_m env showid (JArr (map JStr (e # es))) options net =
     issue env options
       (and_then (collect (map qsEscape (e # es))) (\<lambda>evs.
          Inr (ustr ''shows/'' @ escape_pathname (js_to_string showid) @ ustr ''?''
               @ join_with (ustr ''&'') (map (\<lambda>ev. ustr ''embed%5B%5D='' @ ev) evs)))) net"
  "person env pid (JArr (map JStr (e # es))) options net =
     issue env options
       (and_then (collect (map qsEscape (e # es))) (\<lambda>evs.
          Inr (ustr ''people/'' @ escape_pathname (js_to_string pid) @ ustr ''?''
               @ join_with (ustr ''&'') (map (\<lambda>ev. ustr ''embed%5B%5D='' @ ev) evs)))) net"
  "personCastCredits env pid (JArr (map JStr (e # es))) options net =
     issue env options
       (and_then (collect (map qsEscape (e # es))) (\<lambda>evs.
          Inr (ustr ''people/'' @ escape_pathname (js_to_string pid) @ ustr ''/castcredits?''
               @ join_with (ustr ''&'') (map (\<lambda>ev. ustr ''embed%5B%5D='' @ ev) evs)))) net"
  "personCrewCredits env pid (JArr (map JStr (e # es))) options net =
     issue env options
       (and_then (collect (map qsEscape (e # es))) (\<lambda>evs.
          Inr (ustr ''people/'' @ escape_pathname (js_to_string pid) @ ustr ''/crewcredits?''
               @ join_with (ustr ''&'') (map (\<lambda>ev. ustr ''embed%5B%5D='' @ ev) evs)))) net"
  using embed_templates [where x = "JStr e" and xs = "map JStr es"]
    collect_strings [of "e # es"]
  by (simp_all del: collect.simps)

section \<open>Claim C1: unsupplied optional parameters\<close>

text \<open>
  Claim C1 says that \<open>sendRequest\<close> leaves a query key whose value is \<open>null\<close> or absent out
  of the query string, and that \<open>schedule\<close> called without its arguments requests a URL
  without their keys. For the query \<open>{page: null}\<close> the URL is
  \<open>http://api.tvmaze.com/shows?page=\<close>, and \<open>schedule()\<close> requests
  \<open>http://api.tvmaze.com/schedule?countrycode=&date=\<close>: the keys are there, with empty
  values.
\<close>

theorem null_key_counterexample:
  "snd (sendRequest env_ok (ustr ''shows'')
          (JObj [(ustr ''query'', JObj [(ustr ''page'', JNull)])]) []) =
     [\<lparr>method' = ustr ''GET'', url = ustr ''http://api.tvmaze.com/shows?page='',
       headers = JObj [(ustr ''User-Agent'',
                        JStr (ustr ''Mozilla/5.0 (Node.js) Tvmaze/1.0.0''))]\<rparr>]
   \<and> snd (schedule env_ok JUndefined JUndefined JUndefined []) =
     [\<lparr>method' = ustr ''GET'', url = ustr ''http://api.tvmaze.com/schedule?countrycode=&date='',
       headers = JObj [(ustr ''User-Agent'',
                        JStr (ustr ''Mozilla/5.0 (Node.js) Tvmaze/1.0.0''))]\<rparr>]"
proof -
  have v: "VERSION env_ok = ustr ''1.0.0''"
    by (simp add: env_ok_def)
  have "snd (sendRequest env_ok (ustr ''shows'')
          (JObj [(ustr ''query'', JObj [(ustr ''page'', JNull)])]) []) =
     [\<lparr>method' = ustr ''GET'', url = ustr ''http://api.tvmaze.com/shows?page='',
       headers = JObj [(ustr ''User-Agent'',
                        JStr (ustr ''Mozilla/5.0 (Node.js) Tvmaze/1.0.0''))]\<rparr>]"
    by (simp add: sendRequest_issue snd_perform get_request_def base_url_def BASE_URL_def
          merge_options_def Object_assign_def DEFAULT_OPTIONS_def obj_get_def
          url_eval ustr_join v)
  moreover have "snd (schedule env_ok JUndefined JUndefined JUndefined []) =
     [\<lparr>method' = ustr ''GET'', url = ustr ''http://api.tvmaze.com/schedule?countrycode=&date='',
       headers = JObj [(ustr ''User-Agent'',
                        JStr (ustr ''Mozilla/5.0 (Node.js) Tvmaze/1.0.0''))]\<rparr>]"
    by (simp add: own_query_issue snd_perform get_request_default url_eval ustr_join v)
  ultimately show ?thesis by simp
qed

text \<open>
  Claim C1, amended. When \<open>embed\<close>, \<open>specials\<close> or \<open>page\<close> is not supplied, the URL that the
  method requests has no entry for it: no query string at all for \<open>show\<close>, \<open>person\<close>,
  \<open>personCastCredits\<close>, \<open>personCrewCredits\<close>, \<open>episodes\<close> and \<open>showsIndex\<close>, and the entry for
  \<open>q\<close> alone for \<open>singleSearch\<close>, whose call throws and requests nothing when the search
  string cannot be escaped. The omission is the work of the methods:
  \<open>querystring.stringify\<close> itself writes a key whose value is \<open>null\<close> or \<open>undefined\<close> as the
  entry \<open>key=\<close>, wherever the key stands in the query object.
\<close>

theorem omission_law:
  "singleSearch env (JStr s) JUndefined options net =
     issue env options
       (and_then (qsEscape s) (\<lambda>q. Inr (ustr ''singlesearch/shows?q='' @ q))) net
   \<and> show_m env (JNum n) JUndefined options net =
     perform env (get_request (VERSION env) options (ustr ''shows/'' @ number_to_string n)) net
   \<and> person env (JNum n) JUndefined options net =
     perform env (get_request (VERSION env) options (ustr ''people/'' @ number_to_string n)) net
   \<and> personCastCredits env (JNum n) JUndefined options net =
     perform env (get_request (VERSION env) options
       (ustr ''people/'' @ number_to_string n @ ustr ''/castcredits'')) net
   \<and> personCrewCredits env (JNum n) JUndefined options net =
     perform env (get_request (VERSION env) options
       (ustr ''people/'' @ number_to_string n @ ustr ''/crewcredits'')) net
   \<and> episodes env (JNum n) JUndefined options net =
     perform env (get_request (VERSION env) options
       (ustr ''shows/'' @ number_to_string n @ ustr ''/episodes'')) net
   \<and> showsIndex env JUndefined options net =
     perform env (get_request (VERSION env) options (ustr ''shows'')) net
   \<and> issue env options (Inl URIError) net = (Throws URIError, net)
   \<and> issue env options (Inr rel) net =
     perform env (get_request (VERSION env) options rel) net
   \<and> snd (perform env req net) = net @ [req]
   \<and> stringify (JObj (kvs @ (k, JNull) # kvs')) =
     and_then (entries kvs) (\<lambda>es. and_then (qsEscape k) (\<lambda>ek.
       and_then (entries kvs') (\<lambda>es'.
         Inr (join_with (ustr ''&'') (es @ [ek @ ustr ''=''] @ es')))))
   \<and> stringify (JObj (kvs @ (k, JUndefined) # kvs')) =
     and_then (entries kvs) (\<lambda>es. and_then (qsEscape k) (\<lambda>ek.
       and_then (entries kvs') (\<lambda>es'.
         Inr (join_with (ustr ''&'') (es @ [ek @ ustr ''=''] @ es')))))
   \<and> url_format path (JObj [(k, JNull)]) =
     and_then (qsEscape k) (\<lambda>ek. Inr (escape_pathname path @ ustr ''?'' @ ek @ ustr ''=''))
   \<and> url_format path (JObj [(k, JUndefined)]) =
     and_then (qsEscape k) (\<lambda>ek. Inr (escape_pathname path @ ustr ''?'' @ ek @ ustr ''=''))"
proof -
  have a: "escape_pathname (js_to_string (JNum n)) = number_to_string n"
    by simp
  note t = string_templates(3) [of env s options net]
    plain_templates(1) [of env "JNum n" options net, unfolded a]
    plain_templates(6) [of env "JNum n" options net, unfolded a]
    plain_templates(7) [of env "JNum n" options net, unfolded a]
    plain_templates(8) [of env "JNum n" options net, unfolded a]
    plain_templates(2) [of env "JNum n" JUndefined options net, unfolded a]
    plain_templates(4) [of env options net]
  have e: "episodes env (JNum n) JUndefined options net =
     perform env (get_request (VERSION env) options
       (ustr ''shows/'' @ number_to_string n @ ustr ''/episodes'')) net"
    using t(6) by simp
  from t(1-5) e t(7) issue_Inl [of env options URIError net] issue_Inr [of env options rel net]
    snd_perform [of env req net]
    stringify_null [OF null_entry(1), where kvs = kvs and kvs' = kvs']
    stringify_null [OF null_entry(2), where kvs = kvs and kvs' = kvs']
    url_format_null [OF null_entry(1), where path = path]
    url_format_null [OF null_entry(2), where path = path]
  show ?thesis
    by (intro conjI) assumption+
qed

section \<open>Claim C2: headers\<close>

text \<open>
  Claim C2 says that a supplied header leaves the other default headers, the default
  \<open>User-Agent\<close> among them, in the effective headers. With the options
  \<open>{header: {Accept: 'application/json'}}\<close> the headers of the request are the supplied
  object alone and have no \<open>User-Agent\<close>: \<open>Object.assign\<close> replaces the \<open>header\<close> field as a
  whole.
\<close>

theorem header_merge_counterexample:
  "snd (sendRequest env_ok (ustr ''shows/1'')
      (JObj [(ustr ''header'', JObj [(ustr ''Accept'', JStr (ustr ''application/json''))])]) [])
     = [\<lparr>method' = ustr ''GET'', url = ustr ''http://api.tvmaze.com/shows/1'',
         headers = JObj [(ustr ''Accept'', JStr (ustr ''application/json''))]\<rparr>]
   \<and> obj_get [(ustr ''Accept'', JStr (ustr ''application/json''))] (ustr ''User-Agent'')
     = JUndefined"
  by (simp add: sendRequest_issue snd_perform get_request_def base_url_def BASE_URL_def
        merge_options_def Object_assign_def DEFAULT_OPTIONS_def obj_get_def
        escape_pathname_ustr ustr_append [symmetric] url_format_eq)

text \<open>
  Claim C2, amended. The headers of the request that a call issues are the \<open>header\<close> field
  of the caller's options when the options have one, whatever it contains, and the
  default headers with their \<open>User-Agent\<close> when the options have none or are absent. A
  call with options issues one request, or throws the \<open>URIError\<close> of \<open>url.format\<close> and issues
  none; a call without options always issues its request.
\<close>

theorem header_replacement:
  assumes "distinct (map fst kvs)"
  shows "(snd (sendRequest env path (JObj kvs) net) = net @ [req] \<longrightarrow>
            headers req =
              (if ustr ''header'' \<in> fst ` set kvs then obj_get kvs (ustr ''header'')
               else JObj [(ustr ''User-Agent'',
                           JStr (ustr ''Mozilla/5.0 (Node.js) Tvmaze/'' @ VERSION env))]))
         \<and> ((\<exists>r. snd (sendRequest env path (JObj kvs) net) = net @ [r])
              \<or> sendRequest env path (JObj kvs) net = (Throws URIError, net))
         \<and> snd (sendRequest env path JUndefined net) =
             net @ [\<lparr>method' = ustr ''GET'',
                     url = ustr ''http://api.tvmaze.com/'' @ escape_pathname path,
                     headers = JObj [(ustr ''User-Agent'',
                           JStr (ustr ''Mozilla/5.0 (Node.js) Tvmaze/'' @ VERSION env))]\<rparr>]"
proof -
  have d: "obj_get (own_props (DEFAULT_OPTIONS (VERSION env))) (ustr ''header'') =
          JObj [(ustr ''User-Agent'', JStr (ustr ''Mozilla/5.0 (Node.js) Tvmaze/'' @ VERSION env))]"
    by (simp add: DEFAULT_OPTIONS_def obj_get_def)
  have a: "snd (sendRequest env path (JObj kvs) net) = net @ [req] \<longrightarrow>
            headers req =
              (if ustr ''header'' \<in> fst ` set kvs then obj_get kvs (ustr ''header'')
               else JObj [(ustr ''User-Agent'',
                           JStr (ustr ''Mozilla/5.0 (Node.js) Tvmaze/'' @ VERSION env))])"
    using merge_options_get[OF assms, of "VERSION env" "ustr ''header''"] d
      requestOpts_parts [of "VERSION env" path "JObj kvs" req]
    by (simp add: issued_request)
  have c: "snd (sendRequest env path JUndefined net) =
             net @ [\<lparr>method' = ustr ''GET'',
                     url = ustr ''http://api.tvmaze.com/'' @ escape_pathname path,
                     headers = JObj [(ustr ''User-Agent'',
                           JStr (ustr ''Mozilla/5.0 (Node.js) Tvmaze/'' @ VERSION env))]\<rparr>]"
    by (simp add: issued_request requestOpts_default)
  from a sendRequest_cases [of env path "JObj kvs" net] c show ?thesis
    by (intro conjI) assumption+
qed

text \<open>
  Options with a \<open>header\<close> field and options without one, each with the request issued.
\<close>

theorem header_replacement_witness:
  "distinct (map fst [(ustr ''https'', JBool True),
                      (ustr ''header'', JObj [(ustr ''User-Agent'', JStr (ustr ''mine''))])])
   \<and> snd (sendRequest env_ok (ustr ''shows/1'')
        (JObj [(ustr ''https'', JBool True),
               (ustr ''header'', JObj [(ustr ''User-Agent'', JStr (ustr ''mine''))])]) [])
       = [] @ [\<lparr>method' = ustr ''GET'', url = ustr ''https://api.tvmaze.com/shows/1'',
                headers = JObj [(ustr ''User-Agent'', JStr (ustr ''mine''))]\<rparr>]
   \<and> headers \<lparr>method' = ustr ''GET'', url = ustr ''https://api.tvmaze.com/shows/1'',
                headers = JObj [(ustr ''User-Agent'', JStr (ustr ''mine''))]\<rparr>
       = obj_get [(ustr ''https'', JBool True),
               (ustr ''header'', JObj [(ustr ''User-Agent'', JStr (ustr ''mine''))])] (ustr ''header'')
   \<and> distinct (map fst [(ustr ''https'', JBool True)])
   \<and> snd (sendRequest env_ok (ustr ''shows/1'') (JObj [(ustr ''https'', JBool True)]) [])
       = [] @ [\<lparr>method' = ustr ''GET'', url = ustr ''https://api.tvmaze.com/shows/1'',
                headers = JObj [(ustr ''User-Agent'',
                                 JStr (ustr ''Mozilla/5.0 (Node.js) Tvmaze/1.0.0''))]\<rparr>]
   \<and> headers \<lparr>method' = ustr ''GET'', url = ustr ''https://api.tvmaze.com/shows/1'',
                headers = JObj [(ustr ''User-Agent'',
                                 JStr (ustr ''Mozilla/5.0 (Node.js) Tvmaze/1.0.0''))]\<rparr>
       = JObj [(ustr ''User-Agent'', JStr (ustr ''Mozilla/5.0 (Node.js) Tvmaze/'' @ VERSION env_ok))]"
proof -
  have d: "distinct (map fst [(ustr ''https'', JBool True),
                      (ustr ''header'', JObj [(ustr ''User-Agent'', JStr (ustr ''mine''))])])"
    "distinct (map fst [(ustr ''https'', JBool True)])"
    by simp_all
  have v: "VERSION env_ok = ustr ''1.0.0''"
    by (simp add: env_ok_def)
  have a: "snd (sendRequest env_ok (ustr ''shows/1'')
        (JObj [(ustr ''https'', JBool True),
               (ustr ''header'', JObj [(ustr ''User-Agent'', JStr (ustr ''mine''))])]) [])
       = [] @ [\<lparr>method' = ustr ''GET'', url = ustr ''https://api.tvmaze.com/shows/1'',
                headers = JObj [(ustr ''User-Agent'', JStr (ustr ''mine''))]\<rparr>]"
    by (simp add: sendRequest_issue snd_perform get_request_def base_url_def BASE_URL_def
        merge_options_def Object_assign_def DEFAULT_OPTIONS_def obj_get_def
        escape_pathname_ustr ustr_append [symmetric] url_format_eq)
  have b: "snd (sendRequest env_ok (ustr ''shows/1'') (JObj [(ustr ''https'', JBool True)]) [])
       = [] @ [\<lparr>method' = ustr ''GET'', url = ustr ''https://api.tvmaze.com/shows/1'',
                headers = JObj [(ustr ''User-Agent'',
                                 JStr (ustr ''Mozilla/5.0 (Node.js) Tvmaze/1.0.0''))]\<rparr>]"
    by (simp add: sendRequest_issue snd_perform get_request_def base_url_def BASE_URL_def
        merge_options_def Object_assign_def DEFAULT_OPTIONS_def obj_get_def
        escape_pathname_ustr ustr_append [symmetric] url_format_eq v)
  show ?thesis
    using header_replacement[OF d(1), of env_ok "ustr ''shows/1''" "[]"
        "\<lparr>method' = ustr ''GET'', url = ustr ''https://api.tvmaze.com/shows/1'',
                headers = JObj [(ustr ''User-Agent'', JStr (ustr ''mine''))]\<rparr>"]
      header_replacement[OF d(2), of env_ok "ustr ''shows/1''" "[]"
        "\<lparr>method' = ustr ''GET'', url = ustr ''https://api.tvmaze.com/shows/1'',
                headers = JObj [(ustr ''User-Agent'',
                                 JStr (ustr ''Mozilla/5.0 (Node.js) Tvmaze/1.0.0''))]\<rparr>"]
      a b
    by (simp add: obj_get_def v ustr_append [symmetric])
qed

section \<open>Claim C3: URL templates\<close>



section \<open>Claim C4: embed lists\<close>

text \<open>
  Claim C4. For a non-empty embed array, every method that takes one puts one entry
  \<open>embed[]=value\<close> per element into the query string, in the order of the array and
  separated by \<open>&\<close>; the key \<open>embed[]\<close> is written percent-encoded, \<open>embed%5B%5D\<close>. The
  values are the encoded elements in the order of the array (\<open>collect\<close> keeps the order),
  and the call throws without a request when one of them cannot be escaped. For
  \<open>["a", "b"]\<close> the entries are \<open>embed%5B%5D=a&embed%5B%5D=b\<close>.
\<close>

theorem embed_array_law:
  "singleSearch env (JStr s) (JArr (x # xs)) options net =
     issue env options
       (and_then (qsEscape s) (\<lambda>q.
          and_then (collect (map encodeStringified (x # xs))) (\<lambda>evs.
            Inr (ustr ''singlesearch/shows?q='' @ q @ ustr ''&''
                 @ join_with (ustr ''&'') (map (\<lambda>ev. ustr ''embed%5B%5D='' @ ev) evs))))) net
   \<and> show_m env (JNum n) (JArr (x # xs)) options net =
     issue env options
       (and_then (collect (map encodeStringified (x # xs))) (\<lambda>evs.
          Inr (ustr ''shows/'' @ number_to_string n @ ustr ''?''
               @ join_with (ustr ''&'') (map (\<lambda>ev. ustr ''embed%5B%5D='' @ ev) evs)))) net
   \<and> person env (JNum n) (JArr (x # xs)) options net =
     issue env options
       (and_then (collect (map encodeStringified (x # xs))) (\<lambda>evs.
          Inr (ustr ''people/'' @ number_to_string n @ ustr ''?''
               @ join_with (ustr ''&'') (map (\<lambda>ev. ustr ''embed%5B%5D='' @ ev) evs)))) net
   \<and> personCastCredits env (JNum n) (JArr (x # xs)) options net =
     issue env options
       (and_then (collect (map encodeStringified (x # xs))) (\<lambda>evs.
          Inr (ustr ''people/'' @ number_to_string n @ ustr ''/castcredits?''
               @ join_with (ustr ''&'') (map (\<lambda>ev. ustr ''embed%5B%5D='' @ ev) evs)))) net
   \<and> personCrewCredits env (JNum n) (JArr (x # xs)) options net =
     issue env options
       (and_then (collect (map encodeStringified (x # xs))) (\<lambda>evs.
          Inr (ustr ''people/'' @ number_to_string n @ ustr ''/crewcredits?''
               @ join_with (ustr ''&'') (map (\<lambda>ev. ustr ''embed%5B%5D='' @ ev) evs)))) net
   \<and> collect (map Inr evs) = Inr evs
   \<and> collect (map encodeStringified (map JStr es)) = collect (map qsEscape es)
   \<and> issue env options (Inl URIError) net = (Throws URIError, net)
   \<and> issue env options (Inr rel) net =
     perform env (get_request (VERSION env) options rel) net
   \<and> snd (perform env req net) = net @ [req]
   \<and> qsEscape (ustr ''embed[]'') = Inr (ustr ''embed%5B%5D'')
   \<and> collect (map encodeStringified [JStr (ustr ''a''), JStr (ustr ''b'')])
       = Inr [ustr ''a'', ustr ''b'']
   \<and> join_with (ustr ''&'') (map (\<lambda>ev. ustr ''embed%5B%5D='' @ ev) [ustr ''a'', ustr ''b''])
       = ustr ''embed%5B%5D=a&embed%5B%5D=b''
   \<and> snd (show_m env (JNum (Abs_safe_int 396)) (JArr [JStr (ustr ''a''), JStr (ustr ''b'')])
            JUndefined net) =
       net @ [\<lparr>method' = ustr ''GET'',
               url = ustr ''http://api.tvmaze.com/shows/396?embed%5B%5D=a&embed%5B%5D=b'',
               headers = JObj [(ustr ''User-Agent'',
                           JStr (ustr ''Mozilla/5.0 (Node.js) Tvmaze/'' @ VERSION env))]\<rparr>]"
proof -
  have a: "escape_pathname (js_to_string (JNum n)) = number_to_string n"
    by simp
  note t = embed_templates(1) [of env s x xs options net]
    embed_templates(2-5) [of env "JNum n" x xs options net, unfolded a]
  have c1: "collect (map Inr evs) = Inr evs"
    by (induction evs) simp_all
  have c2: "collect (map encodeStringified (map JStr es)) = collect (map qsEscape es)"
    by (induction es) simp_all
  have ab: "qsEscape (ustr ''a'') = Inr (ustr ''a'')" "qsEscape (ustr ''b'') = Inr (ustr ''b'')"
    by (simp_all add: escape_eval)
  have ex1: "collect (map encodeStringified [JStr (ustr ''a''), JStr (ustr ''b'')])
       = Inr [ustr ''a'', ustr ''b'']"
    by (simp add: ab)
  have ex2: "join_with (ustr ''&'')
        (map (\<lambda>ev. ustr ''embed%5B%5D='' @ ev) [ustr ''a'', ustr ''b''])
       = ustr ''embed%5B%5D=a&embed%5B%5D=b''"
    by (simp add: ustr_join)
  have ex3: "snd (show_m env (JNum (Abs_safe_int 396))
            (JArr [JStr (ustr ''a''), JStr (ustr ''b'')]) JUndefined net) =
       net @ [\<lparr>method' = ustr ''GET'',
               url = ustr ''http://api.tvmaze.com/shows/396?embed%5B%5D=a&embed%5B%5D=b'',
               headers = JObj [(ustr ''User-Agent'',
                           JStr (ustr ''Mozilla/5.0 (Node.js) Tvmaze/'' @ VERSION env))]\<rparr>]"
    by (simp add: embed_templates ab snd_perform get_request_default number_to_string_eval
          escape_pathname_ustr ustr_join)
  from t c1 c2 issue_Inl [of env options URIError net] issue_Inr [of env options rel net]
    snd_perform [of env req net] key_eval(2) ex1 ex2 ex3
  show ?thesis
    by (intro conjI) assumption+
qed

section \<open>Claim C5: merging options\<close>



section \<open>Claim C6: missing arguments\<close>



section \<open>Claim C7: outcome of a call\<close>

text \<open>
  Claim C7. When \<open>sendRequest\<close> has built its request and the transport answers it, the
  call resolves with the \<open>data\<close> of the response as it is; when the transport fails, the
  call rejects with the same error. In both cases the network has gained exactly that one
  request. When \<open>url.format\<close> throws, the call throws and the transport is not reached.
\<close>

theorem passthrough:
  "(requestOpts (VERSION env) path options = Inr req \<and> axios env net req = Inr r \<longrightarrow>
      sendRequest env path options net = (Resolves (data r), net @ [req]))
   \<and> (requestOpts (VERSION env) path options = Inr req \<and> axios env net req = Inl e \<longrightarrow>
      sendRequest env path options net = (Rejects e, net @ [req]))
   \<and> (requestOpts (VERSION env) path options = Inl thrown \<longrightarrow>
      sendRequest env path options net = (Throws thrown, net))"
  by (simp add: sendRequest_def axios_call_def)

text \<open>
  A transport that answers, one that refuses the connection, and a query whose value
  cannot be escaped.
\<close>

theorem passthrough_witness:
  "requestOpts (VERSION env_ok) (ustr ''shows/1'') JUndefined =
     Inr \<lparr>method' = ustr ''GET'', url = ustr ''http://api.tvmaze.com/shows/1'',
          headers = JObj [(ustr ''User-Agent'', JStr (ustr ''Mozilla/5.0 (Node.js) Tvmaze/1.0.0''))]\<rparr>
   \<and> axios env_ok []
        \<lparr>method' = ustr ''GET'', url = ustr ''http://api.tvmaze.com/shows/1'',
          headers = JObj [(ustr ''User-Agent'', JStr (ustr ''Mozilla/5.0 (Node.js) Tvmaze/1.0.0''))]\<rparr>
       = Inr \<lparr>data = JStr (ustr ''http://api.tvmaze.com/shows/1''), status = 200\<rparr>
   \<and> sendRequest env_ok (ustr ''shows/1'') JUndefined []
     = (Resolves (JStr (ustr ''http://api.tvmaze.com/shows/1'')),
        [\<lparr>method' = ustr ''GET'', url = ustr ''http://api.tvmaze.com/shows/1'',
          headers = JObj [(ustr ''User-Agent'', JStr (ustr ''Mozilla/5.0 (Node.js) Tvmaze/1.0.0''))]\<rparr>])
   \<and> sendRequest env_fail (ustr ''shows/1'') JUndefined []
     = (Rejects (ustr ''ECONNREFUSED''),
        [\<lparr>method' = ustr ''GET'', url = ustr ''http://api.tvmaze.com/shows/1'',
          headers = JObj [(ustr ''User-Agent'', JStr (ustr ''Mozilla/5.0 (Node.js) Tvmaze/1.0.0''))]\<rparr>])
   \<and> requestOpts (VERSION env_ok) (ustr ''shows/1'')
        (JObj [(ustr ''query'', JObj [(ustr ''q'', JStr [55296])])]) = Inl URIError
   \<and> sendRequest env_ok (ustr ''shows/1'')
        (JObj [(ustr ''query'', JObj [(ustr ''q'', JStr [55296])])]) [] = (Throws URIError, [])"
proof -
  let ?req = "\<lparr>method' = ustr ''GET'', url = ustr ''http://api.tvmaze.com/shows/1'',
          headers = JObj [(ustr ''User-Agent'', JStr (ustr ''Mozilla/5.0 (Node.js) Tvmaze/1.0.0''))]\<rparr>"
  have v: "VERSION env_ok = ustr ''1.0.0''" "VERSION env_fail = ustr ''1.0.0''"
    by (simp_all add: env_ok_def env_fail_def)
  have req: "requestOpts (ustr ''1.0.0'') (ustr ''shows/1'') JUndefined = Inr ?req"
    by (simp add: requestOpts_default escape_pathname_ustr ustr_append [symmetric])
  have a: "axios env_ok [] ?req
       = Inr \<lparr>data = JStr (ustr ''http://api.tvmaze.com/shows/1''), status = 200\<rparr>"
    by (simp add: env_ok_def)
  have b: "axios env_fail [] ?req = Inl (ustr ''ECONNREFUSED'')"
    by (simp add: env_fail_def)
  have t: "requestOpts (VERSION env_ok) (ustr ''shows/1'')
        (JObj [(ustr ''query'', JObj [(ustr ''q'', JStr [55296])])]) = Inl URIError"
    by (simp add: requestOpts_eq merge_options_def Object_assign_def DEFAULT_OPTIONS_def
          obj_get_def url_format_eq query_part_JObj entries_Cons escape_eval)
  show ?thesis
    using passthrough [of env_ok "ustr ''shows/1''" JUndefined ?req "[]"
            "\<lparr>data = JStr (ustr ''http://api.tvmaze.com/shows/1''), status = 200\<rparr>"]
          passthrough [of env_fail "ustr ''shows/1''" JUndefined ?req "[]" _ "ustr ''ECONNREFUSED''"]
          passthrough [of env_ok "ustr ''shows/1''"
            "JObj [(ustr ''query'', JObj [(ustr ''q'', JStr [55296])])]" _ "[]" _ _ URIError]
          a b t req
    by (simp add: v)
qed

section \<open>Claim C8: scheme\<close>

text \<open>
  Claim C8. The URL of the request that a call issues starts with \<open>https://\<close> when the
  \<open>https\<close> field of the effective options is truthy, as \<open>true\<close> is, and with \<open>http://\<close> (and
  not with \<open>https://\<close>) when it is falsy, as \<open>false\<close> is; without options the field has its
  default \<open>false\<close> and the request is always issued. A call issues one request, or throws
  the \<open>URIError\<close> of \<open>url.format\<close> and issues none.
\<close>

theorem scheme_law:
  "(snd (sendRequest env path options net) = net @ [req]
      \<and> truthy (obj_get (merge_options (VERSION env) options) (ustr ''https'')) \<longrightarrow>
      prefix (ustr ''https://'') (url req))
   \<and> (snd (sendRequest env path options net) = net @ [req]
      \<and> \<not> truthy (obj_get (merge_options (VERSION env) options) (ustr ''https'')) \<longrightarrow>
      prefix (ustr ''http://'') (url req) \<and> \<not> prefix (ustr ''https://'') (url req))
   \<and> ((\<exists>r. snd (sendRequest env path options net) = net @ [r])
        \<or> sendRequest env path options net = (Throws URIError, net))
   \<and> truthy (JBool b) = b
   \<and> obj_get (merge_options (VERSION env) JUndefined) (ustr ''https'') = JBool False
   \<and> snd (sendRequest env path JUndefined net) =
       net @ [\<lparr>method' = ustr ''GET'',
               url = ustr ''http://api.tvmaze.com/'' @ escape_pathname path,
               headers = JObj [(ustr ''User-Agent'',
                           JStr (ustr ''Mozilla/5.0 (Node.js) Tvmaze/'' @ VERSION env))]\<rparr>]"
proof -
  have h: "prefix (ustr ''https://'') (ustr ''https://api.tvmaze.com/'' @ rel)"
    "prefix (ustr ''http://'') (ustr ''http://api.tvmaze.com/'' @ rel)"
    "\<not> prefix (ustr ''https://'') (ustr ''http://api.tvmaze.com/'' @ rel)" for rel
    by (simp_all add: ustr_Cons)
  have a: "snd (sendRequest env path options net) = net @ [req]
      \<and> truthy (obj_get (merge_options (VERSION env) options) (ustr ''https'')) \<longrightarrow>
      prefix (ustr ''https://'') (url req)"
    using requestOpts_parts [of "VERSION env" path options req] h
    by (auto simp: issued_request base_url_def BASE_URL_def ustr_append [symmetric]
          simp del: ustr_eq_iff)
  have b: "snd (sendRequest env path options net) = net @ [req]
      \<and> \<not> truthy (obj_get (merge_options (VERSION env) options) (ustr ''https'')) \<longrightarrow>
      prefix (ustr ''http://'') (url req) \<and> \<not> prefix (ustr ''https://'') (url req)"
    using requestOpts_parts [of "VERSION env" path options req] h
    by (auto simp: issued_request base_url_def BASE_URL_def ustr_append [symmetric]
          simp del: ustr_eq_iff)
  have c: "truthy (JBool b) = b"
    by simp
  have d: "obj_get (merge_options (VERSION env) JUndefined) (ustr ''https'') = JBool False"
    by (simp add: default_https)
  have e: "snd (sendRequest env path JUndefined net) =
       net @ [\<lparr>method' = ustr ''GET'',
               url = ustr ''http://api.tvmaze.com/'' @ escape_pathname path,
               headers = JObj [(ustr ''User-Agent'',
                           JStr (ustr ''Mozilla/5.0 (Node.js) Tvmaze/'' @ VERSION env))]\<rparr>]"
    by (simp add: issued_request requestOpts_default)
  from a b sendRequest_cases [of env path options net] c d e show ?thesis
    by (intro conjI) assumption+
qed

text \<open>
  With \<open>{https: true}\<close> the URL starts with \<open>https://\<close>, without options with \<open>http://\<close>.
\<close>

theorem scheme_law_witness:
  "snd (sendRequest env_ok (ustr ''shows/1'') (JObj [(ustr ''https'', JBool True)]) [])
     = [] @ [\<lparr>method' = ustr ''GET'', url = ustr ''https://api.tvmaze.com/shows/1'',
              headers = JObj [(ustr ''User-Agent'',
                               JStr (ustr ''Mozilla/5.0 (Node.js) Tvmaze/1.0.0''))]\<rparr>]
   \<and> truthy (obj_get (merge_options (VERSION env_ok) (JObj [(ustr ''https'', JBool True)]))
        (ustr ''https''))
   \<and> prefix (ustr ''https://'') (ustr ''https://api.tvmaze.com/shows/1'')
   \<and> snd (sendRequest env_ok (ustr ''shows/1'') JUndefined [])
     = [] @ [\<lparr>method' = ustr ''GET'', url = ustr ''http://api.tvmaze.com/shows/1'',
              headers = JObj [(ustr ''User-Agent'',
                               JStr (ustr ''Mozilla/5.0 (Node.js) Tvmaze/1.0.0''))]\<rparr>]
   \<and> \<not> truthy (obj_get (merge_options (VERSION env_ok) JUndefined) (ustr ''https''))
   \<and> prefix (ustr ''http://'') (ustr ''http://api.tvmaze.com/shows/1'')
   \<and> \<not> prefix (ustr ''https://'') (ustr ''http://api.tvmaze.com/shows/1'')"
proof -
  let ?r1 = "\<lparr>method' = ustr ''GET'', url = ustr ''https://api.tvmaze.com/shows/1'',
              headers = JObj [(ustr ''User-Agent'',
                               JStr (ustr ''Mozilla/5.0 (Node.js) Tvmaze/1.0.0''))]\<rparr>"
  let ?r2 = "\<lparr>method' = ustr ''GET'', url = ustr ''http://api.tvmaze.com/shows/1'',
              headers = JObj [(ustr ''User-Agent'',
                               JStr (ustr ''Mozilla/5.0 (Node.js) Tvmaze/1.0.0''))]\<rparr>"
  have v: "VERSION env_ok = ustr ''1.0.0''"
    by (simp add: env_ok_def)
  have a: "truthy (obj_get (merge_options (VERSION env_ok) (JObj [(ustr ''https'', JBool True)]))
        (ustr ''https''))"
    by (simp add: merge_options_def Object_assign_def DEFAULT_OPTIONS_def obj_get_def)
  have b: "\<not> truthy (obj_get (merge_options (VERSION env_ok) JUndefined) (ustr ''https''))"
    by (simp add: default_https)
  have c: "snd (sendRequest env_ok (ustr ''shows/1'') (JObj [(ustr ''https'', JBool True)]) [])
     = [] @ [?r1]"
    by (simp add: sendRequest_issue snd_perform get_request_def base_url_def BASE_URL_def
        merge_options_def Object_assign_def DEFAULT_OPTIONS_def obj_get_def
        escape_pathname_ustr ustr_append [symmetric] url_format_eq v)
  have d: "snd (sendRequest env_ok (ustr ''shows/1'') JUndefined []) = [] @ [?r2]"
    by (simp add: sendRequest_issue snd_perform get_request_default default_query url_format_eq
          escape_pathname_ustr ustr_append [symmetric] v)
  show ?thesis
    using a b c d scheme_law [of env_ok "ustr ''shows/1''" "JObj [(ustr ''https'', JBool True)]"
        "[]" ?r1]
      scheme_law [of env_ok "ustr ''shows/1''" JUndefined "[]" ?r2]
    by simp
qed

section \<open>Claim C9: lookup by external id\<close>

text \<open>
  Claim C9. Each of \<open>lookupThetvdb\<close>, \<open>lookupImdb\<close> and \<open>lookupTvrage\<close> is \<open>lookup\<close> called
  with its fixed type name, for every id, options and state of the network. For a string
  id the request goes to \<open>lookup/shows\<close> with the id, escaped, under the key equal to the
  type name; \<open>lookupImdb("tt3530232")\<close> without options issues
  \<open>GET http://api.tvmaze.com/lookup/shows?imdb=tt3530232\<close> with the default headers.
\<close>

theorem lookup_wrappers:
  "lookupThetvdb env ident options net = lookup env (JStr (ustr ''thetvdb'')) ident options net
   \<and> lookupImdb env ident options net = lookup env (JStr (ustr ''imdb'')) ident options net
   \<and> lookupTvrage env ident options net = lookup env (JStr (ustr ''tvrage'')) ident options net
   \<and> lookupThetvdb env (JStr i) options net =
       issue env options
         (and_then (qsEscape i) (\<lambda>ei. Inr (ustr ''lookup/shows?thetvdb='' @ ei))) net
   \<and> lookupImdb env (JStr i) options net =
       issue env options
         (and_then (qsEscape i) (\<lambda>ei. Inr (ustr ''lookup/shows?imdb='' @ ei))) net
   \<and> lookupTvrage env (JStr i) options net =
       issue env options
         (and_then (qsEscape i) (\<lambda>ei. Inr (ustr ''lookup/shows?tvrage='' @ ei))) net
   \<and> lookupImdb env (JStr (ustr ''tt3530232'')) JUndefined net =
       perform env
         \<lparr>method' = ustr ''GET'', url = ustr ''http://api.tvmaze.com/lookup/shows?imdb=tt3530232'',
          headers = JObj [(ustr ''User-Agent'',
                           JStr (ustr ''Mozilla/5.0 (Node.js) Tvmaze/'' @ VERSION env))]\<rparr> net"
proof -
  have a: "lookupThetvdb env (JStr i) options net =
       issue env options
         (and_then (qsEscape i) (\<lambda>ei. Inr (ustr ''lookup/shows?thetvdb='' @ ei))) net"
    using lookup_string_issue [of "ustr ''thetvdb''" "ustr ''thetvdb''" env i options net]
    by (simp add: lookupThetvdb_def key_eval ustr_join)
  have b: "lookupImdb env (JStr i) options net =
       issue env options
         (and_then (qsEscape i) (\<lambda>ei. Inr (ustr ''lookup/shows?imdb='' @ ei))) net" for i options
    using lookup_string_issue [of "ustr ''imdb''" "ustr ''imdb''" env i options net]
    by (simp add: lookupImdb_def key_eval ustr_join)
  have c: "lookupTvrage env (JStr i) options net =
       issue env options
         (and_then (qsEscape i) (\<lambda>ei. Inr (ustr ''lookup/shows?tvrage='' @ ei))) net"
    using lookup_string_issue [of "ustr ''tvrage''" "ustr ''tvrage''" env i options net]
    by (simp add: lookupTvrage_def key_eval ustr_join)
  have q: "qsEscape (ustr ''tt3530232'') = Inr (ustr ''tt3530232'')"
    by (simp add: escape_eval)
  have d: "lookupImdb env (JStr (ustr ''tt3530232'')) JUndefined net =
       perform env
         \<lparr>method' = ustr ''GET'', url = ustr ''http://api.tvmaze.com/lookup/shows?imdb=tt3530232'',
          headers = JObj [(ustr ''User-Agent'',
                           JStr (ustr ''Mozilla/5.0 (Node.js) Tvmaze/'' @ VERSION env))]\<rparr> net"
    by (simp add: b q get_request_default ustr_join)
  from a b c d show ?thesis
    by (simp only: lookupThetvdb_def lookupImdb_def lookupTvrage_def simp_thms)
qed

section \<open>Claim C10: the query of the caller's options\<close>


end
